theory Spec2Isabelle
  imports Main "HOL-Library.Char_ord"
begin

section \<open>Lexer (Demo01\_SimpleLexer)\<close>

text \<open>
  Source strings are modelled as HOL strings (lists of \<^typ>\<open>char\<close>). The lexer looks at
  one character at a time and only compares it with ASCII letters, digits, blanks and
  operator characters; every other character takes the same branches.
\<close>

datatype TokenType =
    TokenType_Identifier
  | TokenType_IntLiteral
  | TokenType_GT
  | TokenType_GE
  | TokenType_Int
  | TokenType_Assignment
  | TokenType_Plus
  | TokenType_Minus
  | TokenType_Star
  | TokenType_Slash
  | TokenType_SemiColon
  | TokenType_LeftParen
  | TokenType_RightParen

datatype DfaState =
    DfaState_Initial
  | DfaState_Int
  | DfaState_Id_int1
  | DfaState_Id_int2
  | DfaState_Id_int3
  | DfaState_Id
  | DfaState_GT
  | DfaState_GE
  | DfaState_Assignment
  | DfaState_Plus
  | DfaState_Minus
  | DfaState_Star
  | DfaState_Slash
  | DfaState_SemiColon
  | DfaState_LeftParen
  | DfaState_RightParen
  | DfaState_IntLiteral

text \<open>Class \<open>SimpleToken\<close>: the private fields \<open>type\<close> and \<open>text\<close>, named after their getters.\<close>

record SimpleToken =
  getType :: TokenType
  getText :: string

text \<open>\<open>new SimpleToken()\<close>: type \<open>Identifier\<close>, empty text.\<close>

definition newSimpleToken :: SimpleToken where
  "newSimpleToken = \<lparr>getType = TokenType_Identifier, getText = []\<rparr>"

text \<open>
  Class \<open>SimpleTokenReader\<close>. The cursor \<open>pos\<close> is private, starts at 0 and is changed only
  by \<open>read\<close> (increment), \<open>unread\<close> (decrement guarded by \<open>pos > 0\<close>) and \<open>setPosition\<close>
  (guarded by \<open>position >= 0\<close>), so it is a natural number; the argument of
  \<open>setPosition\<close> is any integer.
\<close>

record SimpleTokenReader =
  readerTokens :: "SimpleToken list"
  pos :: nat

definition read :: "SimpleTokenReader \<Rightarrow> SimpleToken option \<times> SimpleTokenReader" where
  "read r =
     (if pos r < length (readerTokens r)
      then (Some (readerTokens r ! pos r), r\<lparr>pos := pos r + 1\<rparr>)
      else (None, r))"

definition peek :: "SimpleTokenReader \<Rightarrow> SimpleToken option" where
  "peek r =
     (if pos r < length (readerTokens r) then Some (readerTokens r ! pos r) else None)"

definition unread :: "SimpleTokenReader \<Rightarrow> SimpleTokenReader" where
  "unread r = (if pos r > 0 then r\<lparr>pos := pos r - 1\<rparr> else r)"

definition getPosition :: "SimpleTokenReader \<Rightarrow> int" where
  "getPosition r = int (pos r)"

definition setPosition :: "SimpleTokenReader \<Rightarrow> int \<Rightarrow> SimpleTokenReader" where
  "setPosition r position =
     (if position \<ge> 0 \<and> position < int (length (readerTokens r))
      then r\<lparr>pos := nat position\<rparr>
      else r)"

text \<open>
  Class \<open>SimpleLexer\<close>: the three instance fields. Tokens are pushed onto \<open>tokens\<close> only
  in \<open>initToken\<close>, which replaces \<open>token\<close> by a fresh object right after the push, so a
  pushed token is never written again and the list can hold values.
\<close>

record SimpleLexer =
  tokenText :: string
  tokens :: "SimpleToken list"
  token :: SimpleToken

definition newSimpleLexer :: SimpleLexer where
  "newSimpleLexer = \<lparr>tokenText = [], tokens = [], token = newSimpleToken\<rparr>"

definition isAlpha :: "char \<Rightarrow> bool" where
  "isAlpha ch \<longleftrightarrow>
     (ch \<ge> CHR ''a'' \<and> ch \<le> CHR ''z'') \<or> (ch \<ge> CHR ''A'' \<and> ch \<le> CHR ''Z'')"

definition isDigit :: "char \<Rightarrow> bool" where
  "isDigit ch \<longleftrightarrow> ch \<ge> CHR ''0'' \<and> ch \<le> CHR ''9''"

definition isBlank :: "char \<Rightarrow> bool" where
  "isBlank ch \<longleftrightarrow> ch = CHR '' '' \<or> ch = CHR 0x09 \<or> ch = CHR 0x0A"

text \<open>The first half of \<open>initToken\<close>: close out the token being accumulated, if any.\<close>

definition closeToken :: "SimpleLexer \<Rightarrow> SimpleLexer" where
  "closeToken lx =
     (if length (tokenText lx) > 0
      then lx\<lparr>tokens := tokens lx @ [(token lx)\<lparr>getText := tokenText lx\<rparr>],
              tokenText := [],
              token := newSimpleToken\<rparr>
      else lx)"

text \<open>One branch of \<open>initToken\<close>: enter a state, set the type, append the character.\<close>

definition startToken ::
  "DfaState \<Rightarrow> TokenType \<Rightarrow> char \<Rightarrow> SimpleLexer \<Rightarrow> DfaState \<times> SimpleLexer" where
  "startToken newState ty ch lx =
     (newState, lx\<lparr>token := (token lx)\<lparr>getType := ty\<rparr>, tokenText := tokenText lx @ [ch]\<rparr>)"

definition initToken :: "SimpleLexer \<Rightarrow> char \<Rightarrow> DfaState \<times> SimpleLexer" where
  "initToken lx0 ch =
     (let lx = closeToken lx0 in
      if isAlpha ch then
        (if ch = CHR ''i''
         then startToken DfaState_Id_int1 TokenType_Identifier ch lx
         else startToken DfaState_Id TokenType_Identifier ch lx)
      else if isDigit ch then startToken DfaState_IntLiteral TokenType_IntLiteral ch lx
      else if ch = CHR ''>'' then startToken DfaState_GT TokenType_GT ch lx
      else if ch = CHR ''+'' then startToken DfaState_Plus TokenType_Plus ch lx
      else if ch = CHR ''-'' then startToken DfaState_Minus TokenType_Minus ch lx
      else if ch = CHR ''*'' then startToken DfaState_Star TokenType_Star ch lx
      else if ch = CHR ''/'' then startToken DfaState_Slash TokenType_Slash ch lx
      else if ch = CHR '';'' then startToken DfaState_SemiColon TokenType_SemiColon ch lx
      else if ch = CHR ''('' then startToken DfaState_LeftParen TokenType_LeftParen ch lx
      else if ch = CHR '')'' then startToken DfaState_RightParen TokenType_RightParen ch lx
      else if ch = CHR ''='' then startToken DfaState_Assignment TokenType_Assignment ch lx
      else (DfaState_Initial, lx))"

text \<open>The body of the \<open>for\<close> loop of \<open>tokenize\<close>: the \<open>switch\<close> on the current state.\<close>

definition appendChar :: "char \<Rightarrow> SimpleLexer \<Rightarrow> SimpleLexer" where
  "appendChar ch lx = lx\<lparr>tokenText := tokenText lx @ [ch]\<rparr>"

fun tokenizeStep :: "DfaState \<Rightarrow> SimpleLexer \<Rightarrow> char \<Rightarrow> DfaState \<times> SimpleLexer" where
  "tokenizeStep DfaState_Initial lx ch = initToken lx ch"
| "tokenizeStep DfaState_Id lx ch =
     (if isAlpha ch \<or> isDigit ch then (DfaState_Id, appendChar ch lx) else initToken lx ch)"
| "tokenizeStep DfaState_GT lx ch =
     (if ch = CHR ''=''
      then (DfaState_GE, appendChar ch (lx\<lparr>token := (token lx)\<lparr>getType := TokenType_GE\<rparr>\<rparr>))
      else initToken lx ch)"
| "tokenizeStep DfaState_GE lx ch = initToken lx ch"
| "tokenizeStep DfaState_Assignment lx ch = initToken lx ch"
| "tokenizeStep DfaState_Plus lx ch = initToken lx ch"
| "tokenizeStep DfaState_Minus lx ch = initToken lx ch"
| "tokenizeStep DfaState_Star lx ch = initToken lx ch"
| "tokenizeStep DfaState_Slash lx ch = initToken lx ch"
| "tokenizeStep DfaState_SemiColon lx ch = initToken lx ch"
| "tokenizeStep DfaState_LeftParen lx ch = initToken lx ch"
| "tokenizeStep DfaState_RightParen lx ch = initToken lx ch"
| "tokenizeStep DfaState_IntLiteral lx ch =
     (if isDigit ch then (DfaState_IntLiteral, appendChar ch lx) else initToken lx ch)"
| "tokenizeStep DfaState_Id_int1 lx ch =
     (if ch = CHR ''n'' then (DfaState_Id_int2, appendChar ch lx)
      else if isDigit ch \<or> isAlpha ch then (DfaState_Id, appendChar ch lx)
      else initToken lx ch)"
| "tokenizeStep DfaState_Id_int2 lx ch =
     (if ch = CHR ''t'' then (DfaState_Id_int3, appendChar ch lx)
      else if isDigit ch \<or> isAlpha ch then (DfaState_Id, appendChar ch lx)
      else initToken lx ch)"
| "tokenizeStep DfaState_Id_int3 lx ch =
     (if isBlank ch
      then initToken (lx\<lparr>token := (token lx)\<lparr>getType := TokenType_Int\<rparr>\<rparr>) ch
      else (DfaState_Id, appendChar ch lx))"
| "tokenizeStep DfaState_Int lx ch = (DfaState_Int, lx)"

text \<open>The \<open>for\<close> loop over the characters of \<open>code\<close>, from left to right.\<close>

fun tokenizeLoop :: "string \<Rightarrow> DfaState \<Rightarrow> SimpleLexer \<Rightarrow> DfaState \<times> SimpleLexer" where
  "tokenizeLoop [] state lx = (state, lx)"
| "tokenizeLoop (ch # rest) state lx =
     (case tokenizeStep state lx ch of (state', lx') \<Rightarrow> tokenizeLoop rest state' lx')"

text \<open>
  \<open>tokenize\<close> is a method: it takes the instance state and returns the reader together
  with the instance state it leaves behind. The closing call is
  \<open>initToken(code.charAt(code.length - 1))\<close>; on the empty string \<open>charAt(-1)\<close> is the
  empty string, which fails every test of \<open>initToken\<close>, so only the close-out runs.
\<close>

definition tokenize :: "SimpleLexer \<Rightarrow> string \<Rightarrow> SimpleTokenReader \<times> SimpleLexer" where
  "tokenize this code =
     (let lx0 = this\<lparr>tokens := [], tokenText := [], token := newSimpleToken\<rparr>;
          lx1 = snd (tokenizeLoop code DfaState_Initial lx0);
          lx2 = (if length (tokenText lx1) > 0
                 then (case code of
                         [] \<Rightarrow> closeToken lx1
                       | _ # _ \<Rightarrow> snd (initToken lx1 (last code)))
                 else lx1)
      in (\<lparr>readerTokens = tokens lx2, pos = 0\<rparr>, lx2))"

section \<open>Parser (Demo03\_SimpleParser)\<close>

datatype ASTNodeType =
    ASTNodeType_Programm
  | ASTNodeType_IntDeclaration
  | ASTNodeType_ExpressionStmt
  | ASTNodeType_AssignmentStmt
  | ASTNodeType_Primary
  | ASTNodeType_Multiplicative
  | ASTNodeType_Additive
  | ASTNodeType_Identifier
  | ASTNodeType_IntLiteral

text \<open>
  Class \<open>SimpleASTNode\<close>: type, text and the ordered children. The \<open>parent\<close>
  back-reference is written by \<open>addChild\<close> and read by nothing in the parser or the
  evaluator; it is left out.
\<close>

datatype ASTNode =
  SimpleASTNode (nodeType: ASTNodeType) (nodeText: string) (children: "ASTNode list")

text \<open>
  Every \<open>throw new Error(message)\<close> of the parser is \<open>SyntaxError message\<close>. The two
  errors of the evaluator carry the variable name: \<open>UnknownVariable v\<close> is
  \<open>unknown variable: v\<close> and \<open>UnsetVariable v\<close> is \<open>variable v has not been set any value\<close>.
  \<open>TypeError\<close> is the error of the JavaScript runtime for a method call on \<open>null\<close> or
  \<open>undefined\<close>.
\<close>

datatype error =
    SyntaxError string
  | UnknownVariable string
  | UnsetVariable string
  | TypeError

text \<open>
  The parsing methods call each other recursively and loop with \<open>while (true)\<close>; in the
  model each of them takes fuel, which bounds the depth of calls and loop iterations.
  \<open>OutOfFuel\<close> is the answer of a run that was cut off, \<open>Throw\<close> an exception,
  \<open>Return\<close> the returned value with the reader as the method leaves it.
\<close>

datatype 'a result = OutOfFuel | Throw error | Return 'a SimpleTokenReader

text \<open>The test \<open>token && token.getType() === t\<close> (also written \<open>token?.getType() === t\<close>).\<close>

definition tokenIs :: "SimpleToken option \<Rightarrow> TokenType \<Rightarrow> bool" where
  "tokenIs tok t = (case tok of None \<Rightarrow> False | Some k \<Rightarrow> getType k = t)"

text \<open>
  \<open>primary\<close>, \<open>multiplicative\<close> and \<open>additive\<close> return a node object or throw, never
  \<open>null\<close>: the tests \<open>if (child1)\<close>, \<open>if (child2)\<close> and \<open>node !== null\<close> on their results
  always succeed, and the \<open>else\<close> branches of those tests have no counterpart here. In
  both loops the variables \<open>node\<close> and \<open>child1\<close> hold the same object at the head of every
  iteration; the loop functions carry it as \<open>node\<close>. The expression \<open>token!.getText()\<close>
  on a \<open>null\<close> token is a \<open>TypeError\<close>.
\<close>

fun primary :: "nat \<Rightarrow> SimpleTokenReader \<Rightarrow> ASTNode result"
  and multiplicative :: "nat \<Rightarrow> SimpleTokenReader \<Rightarrow> ASTNode result"
  and multiplicativeLoop :: "nat \<Rightarrow> ASTNode \<Rightarrow> SimpleTokenReader \<Rightarrow> ASTNode result"
  and additive :: "nat \<Rightarrow> SimpleTokenReader \<Rightarrow> ASTNode result"
  and additiveLoop :: "nat \<Rightarrow> ASTNode \<Rightarrow> SimpleTokenReader \<Rightarrow> ASTNode result"
where
  "primary 0 r = OutOfFuel"
| "primary (Suc n) r =
     (case peek r of
        None \<Rightarrow> Throw (SyntaxError ''primary expression expected'')
      | Some tok \<Rightarrow>
          if getType tok = TokenType_IntLiteral then
            (case read r of
               (None, r1) \<Rightarrow> Throw TypeError
             | (Some tok1, r1) \<Rightarrow>
                 Return (SimpleASTNode ASTNodeType_IntLiteral (getText tok1) []) r1)
          else if getType tok = TokenType_Identifier then
            (case read r of
               (None, r1) \<Rightarrow> Throw TypeError
             | (Some tok1, r1) \<Rightarrow>
                 Return (SimpleASTNode ASTNodeType_Identifier (getText tok1) []) r1)
          else if getType tok = TokenType_LeftParen then
            (case additive n (snd (read r)) of
               OutOfFuel \<Rightarrow> OutOfFuel
             | Throw e \<Rightarrow> Throw e
             | Return node r2 \<Rightarrow>
                 if tokenIs (peek r2) TokenType_RightParen
                 then Return node (snd (read r2))
                 else Throw (SyntaxError ''expecting right parenthesis''))
          else Throw (SyntaxError ''primary expression expected''))"
| "multiplicative 0 r = OutOfFuel"
| "multiplicative (Suc n) r =
     (case primary n r of
        OutOfFuel \<Rightarrow> OutOfFuel
      | Throw e \<Rightarrow> Throw e
      | Return child1 r1 \<Rightarrow> multiplicativeLoop n child1 r1)"
| "multiplicativeLoop 0 node r = OutOfFuel"
| "multiplicativeLoop (Suc n) node r =
     (if tokenIs (peek r) TokenType_Star \<or> tokenIs (peek r) TokenType_Slash then
        (case read r of
           (tok, r1) \<Rightarrow>
             (case multiplicative n r1 of
                OutOfFuel \<Rightarrow> OutOfFuel
              | Throw e \<Rightarrow> Throw e
              | Return child2 r2 \<Rightarrow>
                  (case tok of
                     None \<Rightarrow> Throw TypeError
                   | Some op \<Rightarrow>
                       multiplicativeLoop n
                         (SimpleASTNode ASTNodeType_Multiplicative (getText op) [node, child2])
                         r2)))
      else Return node r)"
| "additive 0 r = OutOfFuel"
| "additive (Suc n) r =
     (case multiplicative n r of
        OutOfFuel \<Rightarrow> OutOfFuel
      | Throw e \<Rightarrow> Throw e
      | Return child1 r1 \<Rightarrow> additiveLoop n child1 r1)"
| "additiveLoop 0 node r = OutOfFuel"
| "additiveLoop (Suc n) node r =
     (if tokenIs (peek r) TokenType_Plus \<or> tokenIs (peek r) TokenType_Minus then
        (case read r of
           (tok, r1) \<Rightarrow>
             (case multiplicative n r1 of
                OutOfFuel \<Rightarrow> OutOfFuel
              | Throw e \<Rightarrow> Throw e
              | Return child2 r2 \<Rightarrow>
                  (case tok of
                     None \<Rightarrow> Throw TypeError
                   | Some op \<Rightarrow>
                       additiveLoop n
                         (SimpleASTNode ASTNodeType_Additive (getText op) [node, child2])
                         r2)))
      else Return node r)"

text \<open>
  The statement methods return a node or \<open>null\<close> (\<open>None\<close>): \<open>null\<close> says that the rule
  did not apply and that the reader is where another rule can start.
\<close>

definition expressionStatement :: "nat \<Rightarrow> SimpleTokenReader \<Rightarrow> ASTNode option result" where
  "expressionStatement n r =
     (let position = getPosition r in
      case additive n r of
        OutOfFuel \<Rightarrow> OutOfFuel
      | Throw e \<Rightarrow> Throw e
      | Return node r1 \<Rightarrow>
          if tokenIs (peek r1) TokenType_SemiColon
          then Return (Some node) (snd (read r1))
          else Return None (setPosition r1 position))"

definition assignmentStatement :: "nat \<Rightarrow> SimpleTokenReader \<Rightarrow> ASTNode option result" where
  "assignmentStatement n r =
     (if tokenIs (peek r) TokenType_Identifier then
        (case read r of
           (None, r1) \<Rightarrow> Throw TypeError
         | (Some tok, r1) \<Rightarrow>
             if tokenIs (peek r1) TokenType_Assignment then
               (case additive n (snd (read r1)) of
                  OutOfFuel \<Rightarrow> OutOfFuel
                | Throw e \<Rightarrow> Throw e
                | Return child r2 \<Rightarrow>
                    if tokenIs (peek r2) TokenType_SemiColon
                    then Return
                           (Some (SimpleASTNode ASTNodeType_AssignmentStmt (getText tok) [child]))
                           (snd (read r2))
                    else Throw (SyntaxError ''invalid statement, expecting semicolon''))
             else Return None (unread r1))
      else Return None r)"

definition intDeclare :: "nat \<Rightarrow> SimpleTokenReader \<Rightarrow> ASTNode option result" where
  "intDeclare n r =
     (if tokenIs (peek r) TokenType_Int then
        (let r1 = snd (read r) in
         if tokenIs (peek r1) TokenType_Identifier then
           (case read r1 of
              (None, r2) \<Rightarrow> Throw TypeError
            | (Some tok, r2) \<Rightarrow>
                (case (if tokenIs (peek r2) TokenType_Assignment
                       then (case additive n (snd (read r2)) of
                               OutOfFuel \<Rightarrow> OutOfFuel
                             | Throw e \<Rightarrow> Throw e
                             | Return child r3 \<Rightarrow> Return [child] r3)
                       else Return [] r2) of
                   OutOfFuel \<Rightarrow> OutOfFuel
                 | Throw e \<Rightarrow> Throw e
                 | Return cs r4 \<Rightarrow>
                     if tokenIs (peek r4) TokenType_SemiColon
                     then Return
                            (Some (SimpleASTNode ASTNodeType_IntDeclaration (getText tok) cs))
                            (snd (read r4))
                     else Throw (SyntaxError ''invalid statement, expecting semicolon'')))
         else Throw (SyntaxError ''variable name expected''))
      else Return None r)"

text \<open>
  \<open>prog\<close>: the loop \<open>while (tokens.peek())\<close> tries the three statement rules in turn and
  appends the node of the first that applies to the children of the \<open>Programm\<close> node.
\<close>

fun progLoop :: "nat \<Rightarrow> ASTNode list \<Rightarrow> SimpleTokenReader \<Rightarrow> ASTNode result" where
  "progLoop 0 cs r = OutOfFuel"
| "progLoop (Suc n) cs r =
     (case peek r of
        None \<Rightarrow> Return (SimpleASTNode ASTNodeType_Programm ''demo'' cs) r
      | Some _ \<Rightarrow>
          (case intDeclare n r of
             OutOfFuel \<Rightarrow> OutOfFuel
           | Throw e \<Rightarrow> Throw e
           | Return (Some child) r1 \<Rightarrow> progLoop n (cs @ [child]) r1
           | Return None r1 \<Rightarrow>
               (case expressionStatement n r1 of
                  OutOfFuel \<Rightarrow> OutOfFuel
                | Throw e \<Rightarrow> Throw e
                | Return (Some child) r2 \<Rightarrow> progLoop n (cs @ [child]) r2
                | Return None r2 \<Rightarrow>
                    (case assignmentStatement n r2 of
                       OutOfFuel \<Rightarrow> OutOfFuel
                     | Throw e \<Rightarrow> Throw e
                     | Return (Some child) r3 \<Rightarrow> progLoop n (cs @ [child]) r3
                     | Return None r3 \<Rightarrow> Throw (SyntaxError ''unknown statement'')))))"

definition prog :: "nat \<Rightarrow> SimpleTokenReader \<Rightarrow> ASTNode result" where
  "prog n r = progLoop n [] r"

text \<open>\<open>parse\<close> makes a new lexer for every call.\<close>

definition parse :: "nat \<Rightarrow> string \<Rightarrow> ASTNode result" where
  "parse n code = prog n (fst (tokenize newSimpleLexer code))"

section \<open>Evaluator (SimpleScript)\<close>

text \<open>
  A JavaScript number is a double. The evaluator starts from integer literals and adds,
  subtracts, multiplies and takes the floor of quotients, so every finite value it
  computes is an integer: a number is modelled as \<open>Finite i\<close> for the double whose value is
  the integer \<open>i\<close> (\<open>Finite 0\<close> is the positive zero), a negative zero, one of the two
  infinities or \<open>NaN\<close>. Every operation computes its exact result and rounds it to the
  nearest double, ties to the even significand, as IEEE 754 arithmetic does.
\<close>

datatype number = Finite int | NegZero | PosInfinity | NegInfinity | NaN

fun isNegative :: "number \<Rightarrow> bool" where
  "isNegative (Finite i) = (i < 0)"
| "isNegative NegZero = True"
| "isNegative NegInfinity = True"
| "isNegative PosInfinity = False"
| "isNegative NaN = False"

definition isZero :: "number \<Rightarrow> bool" where
  "isZero a \<longleftrightarrow> a = Finite 0 \<or> a = NegZero"

definition isInfinite :: "number \<Rightarrow> bool" where
  "isInfinite a \<longleftrightarrow> a = PosInfinity \<or> a = NegInfinity"

definition signedZero :: "bool \<Rightarrow> number" where
  "signedZero negative = (if negative then NegZero else Finite 0)"

definition signedInfinity :: "bool \<Rightarrow> number" where
  "signedInfinity negative = (if negative then NegInfinity else PosInfinity)"

fun intOf :: "number \<Rightarrow> int" where
  "intOf (Finite i) = i"
| "intOf _ = 0"

fun numNeg :: "number \<Rightarrow> number" where
  "numNeg (Finite i) = (if i = 0 then NegZero else Finite (- i))"
| "numNeg NegZero = Finite 0"
| "numNeg PosInfinity = NegInfinity"
| "numNeg NegInfinity = PosInfinity"
| "numNeg NaN = NaN"

text \<open>
  Rounding. \<open>bitLength n\<close> is the number of binary digits of \<open>n\<close>, and
  \<open>roundNearestEven n d\<close> the integer nearest to \<open>n / d\<close> (for \<open>0 \<le> n\<close> and \<open>0 < d\<close>), the
  even one of two that are equally near.
\<close>

fun bitLength :: "nat \<Rightarrow> nat" where
  "bitLength n = (if n = 0 then 0 else Suc (bitLength (n div 2)))"

declare bitLength.simps [simp del]

definition roundNearestEven :: "int \<Rightarrow> int \<Rightarrow> int" where
  "roundNearestEven n d =
     (if 2 * (n mod d) > d \<or> (2 * (n mod d) = d \<and> odd (n div d))
      then n div d + 1 else n div d)"

text \<open>
  The double nearest to an integer. Every integer below \<open>2^53\<close> in absolute value is a
  double. A larger one keeps its 53 leading binary digits, rounded, and becomes an
  infinity when the rounded value reaches \<open>2^1024\<close>.
\<close>

definition roundInt :: "int \<Rightarrow> number" where
  "roundInt i =
     (if \<bar>i\<bar> < 2 ^ 53 then Finite i
      else (let e = bitLength (nat \<bar>i\<bar>) - 53;
                v = roundNearestEven \<bar>i\<bar> (2 ^ e) * 2 ^ e
            in if v \<ge> 2 ^ 1024 then signedInfinity (i < 0)
               else Finite (if i < 0 then - v else v)))"

text \<open>
  \<open>binaryExponent n d\<close> is the integer \<open>p\<close> with \<open>2^p \<le> n / d < 2^(p+1)\<close>, for positive \<open>n\<close>
  and \<open>d\<close>: the difference of the two bit lengths or one less.
\<close>

definition binaryExponent :: "int \<Rightarrow> int \<Rightarrow> int" where
  "binaryExponent n d =
     (let k = int (bitLength (nat n)) - int (bitLength (nat d)) in
      if (if k \<ge> 0 then d * 2 ^ nat k \<le> n else d \<le> n * 2 ^ nat (- k)) then k else k - 1)"

text \<open>
  \<open>Math.floor(i / j)\<close> for two integers that are not zero. The quotient \<open>i / j\<close> is rounded
  to a double \<open>m * 2^e\<close> with a significand \<open>m\<close> of 53 binary digits (\<open>e\<close> is at least
  \<open>-1074\<close>, the exponent of the subnormal doubles); \<open>Math.floor\<close> is then taken of that
  double, not of the exact quotient.
\<close>

definition floorQuotient :: "int \<Rightarrow> int \<Rightarrow> number" where
  "floorQuotient i j =
     (let n = \<bar>i\<bar>; d = \<bar>j\<bar>;
          negative = ((i < 0) \<noteq> (j < 0));
          e = max (binaryExponent n d - 52) (- 1074)
      in if e \<ge> 0 then
           (let v = roundNearestEven n (d * 2 ^ nat e) * 2 ^ nat e
            in if v \<ge> 2 ^ 1024 then signedInfinity negative
               else Finite (if negative then - v else v))
         else
           (let m = roundNearestEven (n * 2 ^ nat (- e)) d
            in if m = 0 then signedZero negative
               else Finite ((if negative then - m else m) div 2 ^ nat (- e))))"

text \<open>The operator \<open>+\<close> on numbers.\<close>

fun numAdd :: "number \<Rightarrow> number \<Rightarrow> number" where
  "numAdd NaN _ = NaN"
| "numAdd _ NaN = NaN"
| "numAdd PosInfinity NegInfinity = NaN"
| "numAdd NegInfinity PosInfinity = NaN"
| "numAdd PosInfinity _ = PosInfinity"
| "numAdd _ PosInfinity = PosInfinity"
| "numAdd NegInfinity _ = NegInfinity"
| "numAdd _ NegInfinity = NegInfinity"
| "numAdd NegZero NegZero = NegZero"
| "numAdd NegZero (Finite j) = Finite j"
| "numAdd (Finite i) NegZero = Finite i"
| "numAdd (Finite i) (Finite j) = roundInt (i + j)"

text \<open>The operator \<open>-\<close>: \<open>a - b\<close> is \<open>a + (-b)\<close>.\<close>

definition numSub :: "number \<Rightarrow> number \<Rightarrow> number" where
  "numSub a b = numAdd a (numNeg b)"

text \<open>The operator \<open>*\<close>.\<close>

definition numMul :: "number \<Rightarrow> number \<Rightarrow> number" where
  "numMul a b =
     (if a = NaN \<or> b = NaN then NaN
      else if (isInfinite a \<and> isZero b) \<or> (isZero a \<and> isInfinite b) then NaN
      else if isInfinite a \<or> isInfinite b then signedInfinity (isNegative a \<noteq> isNegative b)
      else if isZero a \<or> isZero b then signedZero (isNegative a \<noteq> isNegative b)
      else roundInt (intOf a * intOf b))"

text \<open>
  \<open>Math.floor(a / b)\<close>. Division by a zero raises nothing in JavaScript: a non-zero
  dividend gives an infinity, a zero dividend gives \<open>NaN\<close>, and \<open>Math.floor\<close> returns
  both unchanged, as it does a zero of either sign.
\<close>

definition floorDiv :: "number \<Rightarrow> number \<Rightarrow> number" where
  "floorDiv a b =
     (if a = NaN \<or> b = NaN then NaN
      else if (isInfinite a \<and> isInfinite b) \<or> (isZero a \<and> isZero b) then NaN
      else if isInfinite a then signedInfinity (isNegative a \<noteq> isNegative b)
      else if isInfinite b then signedZero (isNegative a \<noteq> isNegative b)
      else if isZero b then signedInfinity (isNegative a \<noteq> isNegative b)
      else if isZero a then signedZero (isNegative a \<noteq> isNegative b)
      else floorQuotient (intOf a) (intOf b))"

text \<open>
  A value of type \<open>number | null\<close> is a \<^typ>\<open>number option\<close>, with \<open>None\<close> for \<open>null\<close>.
  In arithmetic \<open>null\<close> converts to the positive zero.
\<close>

definition toNumber :: "number option \<Rightarrow> number" where
  "toNumber v = (case v of None \<Rightarrow> Finite 0 | Some a \<Rightarrow> a)"

text \<open>\<open>v || null\<close>: the falsy values (\<open>null\<close>, both zeros and \<open>NaN\<close>) become \<open>null\<close>.\<close>

definition orNull :: "number option \<Rightarrow> number option" where
  "orNull v =
     (case v of
        None \<Rightarrow> None
      | Some a \<Rightarrow> if a = Finite 0 \<or> a = NegZero \<or> a = NaN then None else Some a)"

text \<open>
  \<open>parseInt(s, 10)\<close>: leading white space is skipped, one sign is read, and the longest
  run of decimal digits that follows is the value, rounded to a double; without a digit
  the result is \<open>NaN\<close>. (ECMAScript lets an implementation replace the digits after the
  twentieth significant one by zeros; the model reads every digit.)
\<close>

definition isStrWhiteSpaceChar :: "char \<Rightarrow> bool" where
  "isStrWhiteSpaceChar ch \<longleftrightarrow>
     ch = CHR 0x09 \<or> ch = CHR 0x0A \<or> ch = CHR 0x0B \<or> ch = CHR 0x0C \<or> ch = CHR 0x0D
     \<or> ch = CHR 0x20 \<or> ch = CHR 0xA0"

definition digitsValue :: "string \<Rightarrow> int" where
  "digitsValue ds = foldl (\<lambda>acc d. acc * 10 + (of_char d - 48)) 0 ds"

definition parseInt :: "string \<Rightarrow> number" where
  "parseInt s =
     (let s1 = dropWhile isStrWhiteSpaceChar s;
          negative = (case s1 of [] \<Rightarrow> False | c # _ \<Rightarrow> c = CHR ''-'');
          s2 = (case s1 of [] \<Rightarrow> [] | c # t \<Rightarrow> if c = CHR ''-'' \<or> c = CHR ''+'' then t else s1);
          ds = takeWhile isDigit s2
      in if ds = [] then NaN
         else if negative then numNeg (roundInt (digitsValue ds))
         else roundInt (digitsValue ds))"

text \<open>
  \<open>evaluate\<close>: the field \<open>variables\<close> is threaded through as a map from names to
  \<open>number | null\<close>; a name that the \<open>Map\<close> does not have is \<open>None\<close>, a name bound to
  \<open>null\<close> is \<open>Some None\<close>. The argument \<open>indent\<close> only decides what is printed and is left
  out. Reading \<open>getChildren()[i]\<close> past the end gives \<open>undefined\<close>, and the recursive
  call on it fails with a \<open>TypeError\<close> at \<open>node.getType()\<close>. A thrown error ends the run;
  the bindings written before it are not returned.
\<close>

type_synonym variables = "string \<rightharpoonup> number option"

fun evaluate :: "variables \<Rightarrow> ASTNode \<Rightarrow> error + number option \<times> variables"
  and evaluateProgramm ::
    "variables \<Rightarrow> number option \<Rightarrow> ASTNode list \<Rightarrow> error + number option \<times> variables"
where
  "evaluate vars (SimpleASTNode ASTNodeType_Programm txt cs) = evaluateProgramm vars None cs"
| "evaluate vars (SimpleASTNode ASTNodeType_Additive txt cs) =
     (case cs of
        [] \<Rightarrow> Inl TypeError
      | child1 # rest \<Rightarrow>
          (case evaluate vars child1 of
             Inl e \<Rightarrow> Inl e
           | Inr (value1, vars1) \<Rightarrow>
               (case rest of
                  [] \<Rightarrow> Inl TypeError
                | child2 # _ \<Rightarrow>
                    (case evaluate vars1 child2 of
                       Inl e \<Rightarrow> Inl e
                     | Inr (value2, vars2) \<Rightarrow>
                         Inr (Some (if txt = ''+''
                                    then numAdd (toNumber value1) (toNumber value2)
                                    else numSub (toNumber value1) (toNumber value2)),
                              vars2)))))"
| "evaluate vars (SimpleASTNode ASTNodeType_Multiplicative txt cs) =
     (case cs of
        [] \<Rightarrow> Inl TypeError
      | child3 # rest \<Rightarrow>
          (case evaluate vars child3 of
             Inl e \<Rightarrow> Inl e
           | Inr (value3, vars3) \<Rightarrow>
               (case rest of
                  [] \<Rightarrow> Inl TypeError
                | child4 # _ \<Rightarrow>
                    (case evaluate vars3 child4 of
                       Inl e \<Rightarrow> Inl e
                     | Inr (value4, vars4) \<Rightarrow>
                         Inr (Some (if txt = ''*''
                                    then numMul (toNumber value3) (toNumber value4)
                                    else floorDiv (toNumber value3) (toNumber value4)),
                              vars4)))))"
| "evaluate vars (SimpleASTNode ASTNodeType_IntLiteral txt cs) =
     Inr (Some (parseInt txt), vars)"
| "evaluate vars (SimpleASTNode ASTNodeType_Identifier txt cs) =
     (case vars txt of
        Some v \<Rightarrow>
          (case orNull v of
             Some a \<Rightarrow> Inr (Some a, vars)
           | None \<Rightarrow> Inl (UnsetVariable txt))
      | None \<Rightarrow> Inl (UnknownVariable txt))"
| "evaluate vars (SimpleASTNode ASTNodeType_AssignmentStmt txt cs) =
     (if vars txt = None then Inl (UnknownVariable txt)
      else (case cs of
              [] \<Rightarrow> Inr (None, vars(txt \<mapsto> None))
            | child # _ \<Rightarrow>
                (case evaluate vars child of
                   Inl e \<Rightarrow> Inl e
                 | Inr (result, vars1) \<Rightarrow> Inr (result, vars1(txt \<mapsto> result)))))"
| "evaluate vars (SimpleASTNode ASTNodeType_IntDeclaration txt cs) =
     (case cs of
        [] \<Rightarrow> Inr (None, vars(txt \<mapsto> None))
      | child # _ \<Rightarrow>
          (case evaluate vars child of
             Inl e \<Rightarrow> Inl e
           | Inr (result, vars1) \<Rightarrow> Inr (result, vars1(txt \<mapsto> result))))"
| "evaluate vars (SimpleASTNode ASTNodeType_ExpressionStmt txt cs) = Inr (None, vars)"
| "evaluate vars (SimpleASTNode ASTNodeType_Primary txt cs) = Inr (None, vars)"
| "evaluateProgramm vars result [] = Inr (result, vars)"
| "evaluateProgramm vars result (child # rest) =
     (case evaluate vars child of
        Inl e \<Rightarrow> Inl e
      | Inr (result1, vars1) \<Rightarrow> evaluateProgramm vars1 result1 rest)"

section \<open>Predicates used in the statements\<close>

text \<open>The characters that reach the last \<open>else\<close> of \<open>initToken\<close>.\<close>

definition fallsThrough :: "char \<Rightarrow> bool" where
  "fallsThrough ch \<longleftrightarrow>
     \<not> isAlpha ch \<and> \<not> isDigit ch \<and> ch \<notin> set ''>+-*/;()=''"

text \<open>The texts of the form \<open>[A-Za-z][A-Za-z0-9]*\<close>.\<close>

definition isIdentifierText :: "string \<Rightarrow> bool" where
  "isIdentifierText s =
     (case s of
        [] \<Rightarrow> False
      | c # cs \<Rightarrow> isAlpha c \<and> list_all (\<lambda>d. isAlpha d \<or> isDigit d) cs)"

text \<open>
  \<open>advances r r'\<close>: \<open>r'\<close> reads the same tokens as \<open>r\<close> and its cursor is further on,
  at most one past the last token.
\<close>

definition advances :: "SimpleTokenReader \<Rightarrow> SimpleTokenReader \<Rightarrow> bool" where
  "advances r r' \<longleftrightarrow>
     readerTokens r' = readerTokens r \<and> pos r < pos r' \<and> pos r' \<le> length (readerTokens r)"

definition keepsOrAdvances :: "SimpleTokenReader \<Rightarrow> SimpleTokenReader \<Rightarrow> bool" where
  "keepsOrAdvances r r' \<longleftrightarrow> r' = r \<or> advances r r'"

text \<open>The number of tokens from the cursor to the end.\<close>

definition remaining :: "SimpleTokenReader \<Rightarrow> nat" where
  "remaining r = length (readerTokens r) - pos r"

text \<open>Operand and operator tokens, and the leaf that \<open>primary\<close> builds from an operand.\<close>

definition isOperand :: "SimpleToken \<Rightarrow> bool" where
  "isOperand tok \<longleftrightarrow>
     getType tok = TokenType_IntLiteral \<or> getType tok = TokenType_Identifier"

definition isMulOp :: "SimpleToken \<Rightarrow> bool" where
  "isMulOp tok \<longleftrightarrow> getType tok = TokenType_Star \<or> getType tok = TokenType_Slash"

definition leafOf :: "SimpleToken \<Rightarrow> ASTNode" where
  "leafOf tok =
     SimpleASTNode
       (if getType tok = TokenType_IntLiteral then ASTNodeType_IntLiteral
        else ASTNodeType_Identifier)
       (getText tok) []"

section \<open>Properties of the lexer and the token reader\<close>

lemmas lexer_defs = tokenize_def newSimpleLexer_def newSimpleToken_def initToken_def
  closeToken_def startToken_def appendChar_def isAlpha_def isDigit_def isBlank_def

lemmas reader_defs = read_def peek_def unread_def getPosition_def setPosition_def tokenIs_def

lemmas stmt_defs = parse_def prog_def intDeclare_def expressionStatement_def
  assignmentStatement_def

lemmas number_defs = parseInt_def digitsValue_def isStrWhiteSpaceChar_def isDigit_def
  toNumber_def orNull_def numSub_def numMul_def floorDiv_def isZero_def isInfinite_def
  signedZero_def signedInfinity_def roundInt_def

text \<open>C7: tokenizing \<open>int age = 30\<close> on a fresh lexer yields exactly the four tokens
  \<open>Int "int"\<close>, \<open>Identifier "age"\<close>, \<open>Assignment "="\<close>, \<open>IntLiteral "30"\<close>; the last one is
  closed out at the end of the input. The prefix \<open>int\<close> becomes the keyword because a
  blank follows it: the same three letters at the end of the input stay an identifier.\<close>

theorem tokenize_int_age_30:
  "readerTokens (fst (tokenize newSimpleLexer ''int age = 30'')) =
     [\<lparr>getType = TokenType_Int, getText = ''int''\<rparr>,
      \<lparr>getType = TokenType_Identifier, getText = ''age''\<rparr>,
      \<lparr>getType = TokenType_Assignment, getText = ''=''\<rparr>,
      \<lparr>getType = TokenType_IntLiteral, getText = ''30''\<rparr>]
   \<and> readerTokens (fst (tokenize newSimpleLexer ''int'')) =
     [\<lparr>getType = TokenType_Identifier, getText = ''int''\<rparr>]"
  by (simp add: lexer_defs)

text \<open>C4: the claim is that every \<open>Identifier\<close> token has a text of the form
  \<open>[A-Za-z][A-Za-z0-9]*\<close>. The state \<open>Id_int3\<close> appends every character that is not a
  blank: \<open>int;\<close> is lexed as one \<open>Identifier\<close> token whose text contains the semicolon.\<close>

theorem tokenize_int_semicolon:
  "readerTokens (fst (tokenize newSimpleLexer ''int;'')) =
     [\<lparr>getType = TokenType_Identifier, getText = ''int;''\<rparr>]
   \<and> \<not> isIdentifierText ''int;''"
  by (simp add: lexer_defs isIdentifierText_def)

lemma initToken_skip:
  "fallsThrough ch \<Longrightarrow> tokenText lx = [] \<Longrightarrow> initToken lx ch = (DfaState_Initial, lx)"
  by (simp add: fallsThrough_def initToken_def closeToken_def)

lemma tokenizeLoop_skip:
  "list_all fallsThrough code \<Longrightarrow> tokenText lx = [] \<Longrightarrow>
   tokenizeLoop code DfaState_Initial lx = (DfaState_Initial, lx)"
  by (induction code) (simp_all add: initToken_skip)

text \<open>C8: \<open>tokenize\<close> has no \<open>throw\<close> and its loop runs once per character, so on every
  string it returns a reader, positioned at 0. A character that is no letter, no digit
  and none of \<open>> + - * / ; ( ) =\<close> met with an empty lexeme buffer leaves the lexer as
  it is and the state \<open>Initial\<close>; a string of such characters yields no token.\<close>

theorem tokenize_total_skip:
  "(\<exists>ts lx'. tokenize this code = (\<lparr>readerTokens = ts, pos = 0\<rparr>, lx'))
   \<and> (fallsThrough ch \<and> tokenText lx = [] \<longrightarrow> initToken lx ch = (DfaState_Initial, lx))
   \<and> (list_all fallsThrough code \<longrightarrow> readerTokens (fst (tokenize this code)) = [])"
proof (intro conjI impI)
  show "\<exists>ts lx'. tokenize this code = (\<lparr>readerTokens = ts, pos = 0\<rparr>, lx')"
    by (simp add: tokenize_def Let_def)
next
  assume "fallsThrough ch \<and> tokenText lx = []"
  then show "initToken lx ch = (DfaState_Initial, lx)"
    by (simp add: initToken_skip)
next
  assume "list_all fallsThrough code"
  then show "readerTokens (fst (tokenize this code)) = []"
    by (simp add: tokenize_def Let_def tokenizeLoop_skip)
qed

theorem tokenize_total_skip_witness:
  "list_all fallsThrough ''@ # ?''
   \<and> readerTokens (fst (tokenize newSimpleLexer ''@ # ?'')) = []"
  using tokenize_total_skip [of newSimpleLexer "''@ # ?''"]
  by (simp add: fallsThrough_def isAlpha_def isDigit_def)

text \<open>C9: \<open>setPosition r p\<close> moves the cursor to \<open>p\<close> when \<open>0 \<le> p\<close> and \<open>p\<close> is less than
  the number of tokens, and returns the reader unchanged for every other \<open>p\<close>, the
  number of tokens included. A cursor that is not one past the end is never put there by
  \<open>setPosition\<close>, while \<open>read\<close> on the last token puts it there.\<close>

theorem setPosition_guard:
  "(0 \<le> p \<and> p < int (length (readerTokens r)) \<longrightarrow>
      getPosition (setPosition r p) = p \<and> readerTokens (setPosition r p) = readerTokens r)
   \<and> (\<not> (0 \<le> p \<and> p < int (length (readerTokens r))) \<longrightarrow> setPosition r p = r)
   \<and> setPosition r (int (length (readerTokens r))) = r
   \<and> (pos r \<noteq> length (readerTokens r) \<longrightarrow>
        pos (setPosition r p) \<noteq> length (readerTokens r))
   \<and> (pos r + 1 = length (readerTokens r) \<longrightarrow>
        pos (snd (read r)) = length (readerTokens r))"
  by (auto simp add: setPosition_def getPosition_def read_def)

theorem setPosition_guard_witness:
  "getPosition (setPosition \<lparr>readerTokens = [newSimpleToken, newSimpleToken], pos = 1\<rparr> 0) = 0
   \<and> setPosition \<lparr>readerTokens = [newSimpleToken, newSimpleToken], pos = 1\<rparr> 2 =
       \<lparr>readerTokens = [newSimpleToken, newSimpleToken], pos = 1\<rparr>
   \<and> setPosition \<lparr>readerTokens = [newSimpleToken, newSimpleToken], pos = 1\<rparr> (- 1) =
       \<lparr>readerTokens = [newSimpleToken, newSimpleToken], pos = 1\<rparr>
   \<and> pos (snd (read \<lparr>readerTokens = [newSimpleToken, newSimpleToken], pos = 1\<rparr>)) = 2"
  using setPosition_guard [of 0 "\<lparr>readerTokens = [newSimpleToken, newSimpleToken], pos = 1\<rparr>"]
    setPosition_guard [of 2 "\<lparr>readerTokens = [newSimpleToken, newSimpleToken], pos = 1\<rparr>"]
    setPosition_guard [of "- 1" "\<lparr>readerTokens = [newSimpleToken, newSimpleToken], pos = 1\<rparr>"]
  by simp

lemma tokenize_reset:
  "(this :: SimpleLexer)\<lparr>tokens := [], tokenText := [], token := newSimpleToken\<rparr> =
     newSimpleLexer"
  by (cases this) (simp add: newSimpleLexer_def)

text \<open>C10: \<open>tokenize\<close> overwrites the three instance fields before it reads a character,
  so its result does not depend on the state of the lexer it is called on: two lexers in
  any states give the same reader (and are left in the same state) on the same string,
  also when one of them has tokenized another string before.\<close>

theorem tokenize_resets_state:
  "tokenize lx code = tokenize lx' code
   \<and> readerTokens (fst (tokenize (snd (tokenize lx other)) code)) =
       readerTokens (fst (tokenize lx code))"
  by (simp add: tokenize_def tokenize_reset)

section \<open>Properties of the rounding\<close>

lemma bitLength_bounds:
  "0 < n \<Longrightarrow> 2 ^ (bitLength n - 1) \<le> n \<and> n < 2 ^ bitLength n"
proof (induction n rule: bitLength.induct)
  case (1 n)
  show ?case
  proof (cases "n div 2 = 0")
    case True
    with 1(2) have "n = 1" by (simp add: div_eq_0_iff) 
    then show ?thesis by (simp add: bitLength.simps)
  next
    case False
    with 1 have ih: "2 ^ (bitLength (n div 2) - 1) \<le> n div 2" "n div 2 < 2 ^ bitLength (n div 2)"
      by auto
    from False have pos: "bitLength (n div 2) > 0"
      by (subst bitLength.simps) simp
    have b: "bitLength n = Suc (bitLength (n div 2))"
      using 1(2) by (subst bitLength.simps) simp
    from pos have "(2::nat) ^ (bitLength n - 1) = 2 * 2 ^ (bitLength (n div 2) - 1)"
      unfolding b by (cases "bitLength (n div 2)") simp_all
    with ih show ?thesis unfolding b by (simp; linarith)
  qed
qed

lemma rne_bounds:
  assumes "0 \<le> n" "0 < d"
  shows "n div d \<le> roundNearestEven n d" "roundNearestEven n d \<le> n div d + 1"
  by (simp_all add: roundNearestEven_def)

lemma scaled_div_mod:
  fixes n d t :: int
  assumes n: "0 \<le> n" and d: "0 < d" and t: "0 < t"
  obtains Q S where
    "(n * t) div d = (n div d) * t + Q" "(n * t) mod d = S"
    "Q * d + S = (n mod d) * t" "0 \<le> S" "S < d" "0 \<le> Q" "Q < t"
proof -
  let ?N = "n div d" and ?R = "n mod d"
  let ?Q = "(?R * t) div d" and ?S = "(?R * t) mod d"
  have R: "0 \<le> ?R" "?R < d" using d by simp_all
  have alg: "(a * d + r) * t = r * t + (a * t) * d" for a r :: int
    by (simp add: algebra_simps)
  have e: "?N * d + ?R = n" by simp
  have nt: "n * t = ?R * t + (?N * t) * d"
    using alg [of ?N ?R] unfolding e .
  have 1: "(n * t) div d = ?N * t + ?Q"
    using d by (subst nt) simp
  have 2: "(n * t) mod d = ?S"
    by (subst nt) simp
  have 3: "?Q * d + ?S = ?R * t" by simp
  have 4: "0 \<le> ?S" "?S < d" using d by simp_all
  have 5: "0 \<le> ?Q" using R t d by (simp add: pos_imp_zdiv_nonneg_iff)
  have 6: "?Q < t"
  proof (rule ccontr)
    assume "\<not> ?Q < t"
    then have "t * d \<le> ?Q * d" using d by (intro mult_right_mono) simp_all
    moreover have "?Q * d \<le> ?R * t" using 3 4 by linarith
    moreover have "?R * t < d * t" using R t by (intro mult_strict_right_mono) simp_all
    ultimately show False using mult.commute [of t d] by linarith
  qed
  from 1 2 3 4 5 6 show ?thesis by (rule that)
qed

lemma rne_floor:
  fixes n d t :: int
  assumes n: "0 \<le> n" and d: "0 < d" and t: "0 < t" and dt: "d < 2 * t"
  shows "roundNearestEven (n * t) d div t = n div d"
proof -
  obtain Q S where qs: "(n * t) div d = (n div d) * t + Q" "(n * t) mod d = S"
    "Q * d + S = (n mod d) * t" "0 \<le> S" "S < d" "0 \<le> Q" "Q < t"
    using scaled_div_mod [OF n d t] .
  let ?m = "roundNearestEven (n * t) d"
  have up: "?m = (n div d) * t + Q \<or> (?m = (n div d) * t + Q + 1 \<and> d \<le> 2 * S)"
    by (auto simp add: roundNearestEven_def qs)
  have R: "n mod d \<le> d - 1" using d by simp
  have "?m < (n div d) * t + t"
  proof (cases "Q = t - 1")
    case False
    with qs up show ?thesis by auto
  next
    case True
    have "(n mod d) * t \<le> (d - 1) * t" using R t by (intro mult_right_mono) simp_all
    then have "Q * d + S \<le> d * t - t" using qs(3) by (simp add: algebra_simps)
    moreover have "Q * d = d * t - d" unfolding True by (simp add: algebra_simps)
    ultimately have "S \<le> d - t" by simp
    with dt have "2 * S < d" by simp
    with up True show ?thesis by auto
  qed
  moreover have "(n div d) * t \<le> ?m" using up qs by auto
  ultimately have "?m = t * (n div d) + (?m - (n div d) * t) \<and> 0 \<le> ?m - (n div d) * t
      \<and> ?m - (n div d) * t < t"
    by (simp add: algebra_simps)
  then show ?thesis by (metis int_div_pos_eq)
qed

lemma rne_ceil:
  fixes n d t :: int
  assumes n: "0 \<le> n" and d: "0 < d" and t: "0 < t" and dt: "d < 2 * t"
  shows "(- roundNearestEven (n * t) d) div t = (- n) div d"
proof -
  obtain Q S where qs: "(n * t) div d = (n div d) * t + Q" "(n * t) mod d = S"
    "Q * d + S = (n mod d) * t" "0 \<le> S" "S < d" "0 \<le> Q" "Q < t"
    using scaled_div_mod [OF n d t] .
  let ?m = "roundNearestEven (n * t) d"
  let ?N = "n div d"
  have up: "(?m = ?N * t + Q \<and> 2 * S \<le> d) \<or> (?m = ?N * t + Q + 1 \<and> d \<le> 2 * S)"
    by (auto simp add: roundNearestEven_def qs)
  show ?thesis
  proof (cases "n mod d = 0")
    case True
    with qs d have "Q * d + S = 0" by simp
    moreover have "0 \<le> Q * d" using qs d by simp
    ultimately have "S = 0" "Q * d = 0" using qs(4) by linarith+
    with d have "S = 0" "Q = 0" by simp_all
    with up d have m: "?m = ?N * t" by auto
    from True have "?N * d = n" using div_mult_mod_eq [of n d] by simp
    then have "- n = d * (- ?N) + 0" by (simp add: algebra_simps)
    then have "(- n) div d = - ?N" by (rule int_div_pos_eq) (simp_all add: d)
    moreover have "- ?m = t * (- ?N) + 0" unfolding m by (simp add: algebra_simps)
    then have "(- ?m) div t = - ?N" by (rule int_div_pos_eq) (simp_all add: t)
    ultimately show ?thesis by simp
  next
    case False
    with pos_mod_sign [OF d, of n] have R: "1 \<le> n mod d" "n mod d < d"
      using d by (arith, simp)
    have lower: "?N * t < ?m"
    proof (cases "Q = 0")
      case False
      with qs up show ?thesis by auto
    next
      case True
      have "t \<le> (n mod d) * t" using R t by (simp add: mult_le_cancel_right1)
      with True qs have "t \<le> S" by simp
      with dt have "d < 2 * S" by simp
      with up True show ?thesis by auto
    qed
    have upper: "?m \<le> ?N * t + t" using up qs by auto
    have "- ?m = t * (- (?N + 1)) + ((?N + 1) * t - ?m) \<and> 0 \<le> (?N + 1) * t - ?m
        \<and> (?N + 1) * t - ?m < t"
      using lower upper by (simp add: algebra_simps)
    then have 1: "(- ?m) div t = - (?N + 1)" by (metis int_div_pos_eq)
    have "n = ?N * d + n mod d" by simp
    then have "- n = d * (- (?N + 1)) + (d - n mod d)" by (simp add: algebra_simps)
    moreover have "0 \<le> d - n mod d" "d - n mod d < d" using R by simp_all
    ultimately have 2: "(- n) div d = - (?N + 1)" by (metis int_div_pos_eq)
    from 1 2 show ?thesis by simp
  qed
qed

lemma bitLength_int:
  fixes n :: int
  assumes "0 < n"
  shows "2 ^ (bitLength (nat n) - 1) \<le> n" "n < 2 ^ bitLength (nat n)"
proof -
  from assms have "0 < nat n" by simp
  from bitLength_bounds [OF this]
  have "int (2 ^ (bitLength (nat n) - 1)) \<le> int (nat n)" "int (nat n) < int (2 ^ bitLength (nat n))"
    by (simp_all only: of_nat_le_iff of_nat_less_iff)
  with assms show "2 ^ (bitLength (nat n) - 1) \<le> n" "n < 2 ^ bitLength (nat n)"
    by simp_all
qed

lemma bitLength_small:
  fixes n :: int
  assumes "0 < n" "n < 2 ^ 53"
  shows "1 \<le> bitLength (nat n)" "bitLength (nat n) \<le> 53"
proof -
  from assms(1) show "1 \<le> bitLength (nat n)"
    by (subst bitLength.simps) simp
  from bitLength_int(1) [OF assms(1)] assms(2)
  have "(2::int) ^ (bitLength (nat n) - 1) < 2 ^ 53" by linarith
  then have "bitLength (nat n) - 1 < 53" by (simp only: power_strict_increasing_iff one_less_numeral_iff semiring_norm)
  then show "bitLength (nat n) \<le> 53" by simp
qed

lemma binaryExponent_bounds:
  assumes n: "0 < n" "n < 2 ^ 53" and d: "0 < d" "d < 2 ^ 53"
  shows "- 54 \<le> binaryExponent n d" "binaryExponent n d \<le> 52"
    "0 \<le> binaryExponent n d \<Longrightarrow> d * 2 ^ nat (binaryExponent n d) \<le> n"
proof -
  define k where "k = int (bitLength (nat n)) - int (bitLength (nat d))"
  note bn = bitLength_small [OF n] and bd = bitLength_small [OF d]
  have k: "- 52 \<le> k" "k \<le> 52" using bn bd by (simp_all add: k_def)
  have p: "binaryExponent n d = k \<or> binaryExponent n d = k - 1"
    by (simp add: binaryExponent_def k_def Let_def)
  from p k show "- 54 \<le> binaryExponent n d" "binaryExponent n d \<le> 52" by auto
  assume nonneg: "0 \<le> binaryExponent n d"
  show "d * 2 ^ nat (binaryExponent n d) \<le> n"
  proof (cases "0 \<le> k \<and> d * 2 ^ nat k \<le> n")
    case True
    then show ?thesis by (simp add: binaryExponent_def k_def [symmetric] Let_def)
  next
    case False
    with nonneg have pk: "binaryExponent n d = k - 1" and k1: "1 \<le> k"
      by (auto simp add: binaryExponent_def k_def [symmetric] Let_def split: if_splits)
    have "bitLength (nat d) + nat (k - 1) = bitLength (nat n) - 1"
      using k1 by (simp add: k_def)
    then have "(2::int) ^ bitLength (nat d) * 2 ^ nat (k - 1) = 2 ^ (bitLength (nat n) - 1)"
      by (simp add: power_add [symmetric])
    moreover have "d * 2 ^ nat (k - 1) \<le> 2 ^ bitLength (nat d) * 2 ^ nat (k - 1)"
      using bitLength_int(2) [OF d(1)] by (intro mult_right_mono) simp_all
    ultimately show ?thesis
      using bitLength_int(1) [OF n(1)] unfolding pk by linarith
  qed
qed

lemma rne_pos:
  fixes n d t :: int
  assumes n: "0 < n" and d: "0 < d" and t: "0 < t" and dt: "d < 2 * t"
  shows "0 < roundNearestEven (n * t) d"
proof (cases "n * t < d")
  case True
  have "t \<le> n * t" using n t by simp
  with True dt n t show ?thesis
    by (simp add: roundNearestEven_def div_pos_pos_trivial mod_pos_pos_trivial)
next
  case False
  then have "1 \<le> (n * t) div d" using zdiv_mono1 [of d "n * t" d] d by simp
  with d show ?thesis by (simp add: roundNearestEven_def)
qed

lemma floorQuotient_nonneg_exp:
  assumes "max (binaryExponent \<bar>i\<bar> \<bar>j\<bar> - 52) (- 1074) = e" "0 \<le> e"
  shows "floorQuotient i j =
     (let v = roundNearestEven \<bar>i\<bar> (\<bar>j\<bar> * 2 ^ nat e) * 2 ^ nat e
      in if v \<ge> 2 ^ 1024 then signedInfinity ((i < 0) \<noteq> (j < 0))
         else Finite (if (i < 0) \<noteq> (j < 0) then - v else v))"
  using assms by (simp add: floorQuotient_def Let_def)

lemma floorQuotient_neg_exp:
  assumes "max (binaryExponent \<bar>i\<bar> \<bar>j\<bar> - 52) (- 1074) = e" "e < 0"
  shows "floorQuotient i j =
     (let m = roundNearestEven (\<bar>i\<bar> * 2 ^ nat (- e)) \<bar>j\<bar>
      in if m = 0 then signedZero ((i < 0) \<noteq> (j < 0))
         else Finite ((if (i < 0) \<noteq> (j < 0) then - m else m) div 2 ^ nat (- e)))"
  using assms by (simp add: floorQuotient_def Let_def)

lemma floorQuotient_safe:
  assumes i: "i \<noteq> 0" "\<bar>i\<bar> < 2 ^ 53" and j: "j \<noteq> 0" "\<bar>j\<bar> < 2 ^ 53"
  shows "floorQuotient i j = Finite (i div j)"
proof -
  define n d p where "n = \<bar>i\<bar>" and "d = \<bar>j\<bar>" and "p = binaryExponent n d"
  have n: "0 < n" "n < 2 ^ 53" and d: "0 < d" "d < 2 ^ 53"
    using i j by (simp_all add: n_def d_def)
  note pb = binaryExponent_bounds [OF n d, folded p_def]
  have e: "max (binaryExponent \<bar>i\<bar> \<bar>j\<bar> - 52) (- 1074) = p - 52"
    using pb(1) by (simp add: p_def n_def d_def)
  show ?thesis
  proof (cases "p = 52")
    case True
    with pb(3) have "d * 2 ^ 52 \<le> n" by simp
    with n(2) d(1) have d1: "d = 1" by simp
    have v: "roundNearestEven n 1 = n" by (simp add: roundNearestEven_def)
    have small: "\<not> (2::int) ^ 1024 \<le> n"
    proof -
      have "(2::int) ^ 53 \<le> 2 ^ 1024" by (intro power_increasing) simp_all
      with n(2) show ?thesis by linarith
    qed
    from True e have "max (binaryExponent \<bar>i\<bar> \<bar>j\<bar> - 52) (- 1074) = 0" by simp
    from floorQuotient_nonneg_exp [OF this]
    have "floorQuotient i j =
        (let v = roundNearestEven n (d * 2 ^ nat 0) * 2 ^ nat 0
         in if v \<ge> 2 ^ 1024 then signedInfinity ((i < 0) \<noteq> (j < 0))
            else Finite (if (i < 0) \<noteq> (j < 0) then - v else v))"
      by (simp only: n_def d_def order_refl)
    then have "floorQuotient i j = Finite (if (i < 0) \<noteq> (j < 0) then - n else n)"
      using small by (simp add: d1 v Let_def)
    also have "(if (i < 0) \<noteq> (j < 0) then - n else n) = i div j"
      using i j d1 by (auto simp add: n_def d_def abs_if split: if_splits)
    finally show ?thesis .
  next
    case False
    with pb(2) have lt: "p - 52 < 0" by simp
    define t :: int where "t = 2 ^ nat (- (p - 52))"
    have t: "0 < t" by (simp add: t_def)
    have dt: "d < 2 * t"
    proof (cases "0 \<le> p")
      case True
      from pb(3) [OF True] n(2) have "d * 2 ^ nat p < 2 ^ 53" by linarith
      also have "(2::int) ^ 53 = (2 * t) * 2 ^ nat p"
      proof -
        have "Suc (nat (- (p - 52))) + nat p = 53" using True pb(2) by simp
        then have "(2::int) ^ 53 = 2 ^ (Suc (nat (- (p - 52))) + nat p)" by simp
        then show ?thesis unfolding t_def power_add by simp
      qed
      finally show ?thesis by simp
    next
      case False
      then have "53 \<le> nat (- (p - 52))" by simp
      then have "(2::int) ^ 53 \<le> t" unfolding t_def by (intro power_increasing) simp_all
      with d(2) t show ?thesis by linarith
    qed
    define m where "m = roundNearestEven (n * t) d"
    have m0: "m \<noteq> 0" using rne_pos [OF n(1) d(1) t dt] by (simp add: m_def)
    have fl: "m div t = n div d"
      unfolding m_def using n(1) d(1) t dt by (intro rne_floor) simp_all
    have ce: "(- m) div t = (- n) div d"
      unfolding m_def using n(1) d(1) t dt by (intro rne_ceil) simp_all
    from floorQuotient_neg_exp [OF e lt]
    have "floorQuotient i j =
        (let m = m
         in if m = 0 then signedZero ((i < 0) \<noteq> (j < 0))
            else Finite ((if (i < 0) \<noteq> (j < 0) then - m else m) div t))"
      by (simp only: n_def d_def m_def t_def)
    then have "floorQuotient i j = Finite ((if (i < 0) \<noteq> (j < 0) then - m else m) div t)"
      using m0 by (simp add: Let_def)
    also have "(if (i < 0) \<noteq> (j < 0) then - m else m) div t = i div j"
    proof (cases "(i < 0) \<noteq> (j < 0)")
      case True
      then have "i div j = (- n) div d"
        using i j by (auto simp add: n_def d_def abs_if div_minus_right)
      with True ce show ?thesis by simp
    next
      case False
      then have "i div j = n div d"
        using i j by (auto simp add: n_def d_def abs_if)
      with False fl show ?thesis by simp
    qed
    finally show ?thesis .
  qed
qed

lemma roundInt_small: "\<bar>i\<bar> < 2 ^ 53 \<Longrightarrow> roundInt i = Finite i"
  by (simp add: roundInt_def)

text \<open>
  Beyond \<open>2^53\<close> the rounding shows: \<open>20000000000000000 / 3\<close> lies between \<open>2^52\<close> and
  \<open>2^53\<close>, where the doubles are the integers, and rounds up to \<open>6666666666666667\<close>.
\<close>

lemma bitLength_2e16: "bitLength 20000000000000000 = 55"
  by (simp add: bitLength.simps)

lemma bitLength_3: "bitLength 3 = 2"
  by (simp add: bitLength.simps)

lemma roundInt_2e16: "roundInt 20000000000000000 = Finite 20000000000000000"
  by (simp add: roundInt_def Let_def bitLength_2e16 roundNearestEven_def)

lemma binaryExponent_2e16_3: "binaryExponent 20000000000000000 3 = 52"
  by (simp add: binaryExponent_def Let_def bitLength_2e16 bitLength_3)

lemma floorQuotient_2e16_3: "floorQuotient 20000000000000000 3 = Finite 6666666666666667"
  by (simp add: floorQuotient_def binaryExponent_2e16_3 roundNearestEven_def Let_def)

section \<open>Properties of the parser\<close>

lemma peek_Some_iff:
  "peek r = Some t \<longleftrightarrow> pos r < length (readerTokens r) \<and> t = readerTokens r ! pos r"
  by (auto simp add: peek_def)

lemma tokenIs_peek: "tokenIs (peek r) t \<Longrightarrow> pos r < length (readerTokens r)"
  by (simp add: tokenIs_def peek_def split: if_splits)

lemma read_advance:
  "pos r < length (readerTokens r) \<Longrightarrow>
   read r = (Some (readerTokens r ! pos r), r\<lparr>pos := Suc (pos r)\<rparr>)"
  by (simp add: read_def)

lemma advances_read: "pos r < length (readerTokens r) \<Longrightarrow> advances r (snd (read r))"
  by (simp add: advances_def read_def)

lemma advances_trans: "advances r r1 \<Longrightarrow> advances r1 r2 \<Longrightarrow> advances r r2"
  by (auto simp add: advances_def)

lemma advances_keeps: "advances r r1 \<Longrightarrow> keepsOrAdvances r1 r2 \<Longrightarrow> advances r r2"
  by (auto simp add: advances_def keepsOrAdvances_def)

lemma remaining_advances: "advances r r' \<Longrightarrow> Suc (remaining r') \<le> remaining r"
  by (auto simp add: advances_def remaining_def)

subsection \<open>More fuel does not change a result\<close>

lemma fuel_mono_aux:
  "\<forall>m r node. n \<le> m \<longrightarrow>
     (primary n r \<noteq> OutOfFuel \<longrightarrow> primary m r = primary n r) \<and>
     (multiplicative n r \<noteq> OutOfFuel \<longrightarrow> multiplicative m r = multiplicative n r) \<and>
     (multiplicativeLoop n node r \<noteq> OutOfFuel \<longrightarrow>
        multiplicativeLoop m node r = multiplicativeLoop n node r) \<and>
     (additive n r \<noteq> OutOfFuel \<longrightarrow> additive m r = additive n r) \<and>
     (additiveLoop n node r \<noteq> OutOfFuel \<longrightarrow> additiveLoop m node r = additiveLoop n node r)"
proof (induction n)
  case 0
  show ?case by simp
next
  case (Suc n)
  show ?case
  proof (intro allI impI)
    fix m r node
    assume "Suc n \<le> m"
    then obtain k where m: "m = Suc k" and nk: "n \<le> k"
      by (cases m) auto
    from Suc nk have
      hp: "\<And>r. primary n r \<noteq> OutOfFuel \<Longrightarrow> primary k r = primary n r" and
      hm: "\<And>r. multiplicative n r \<noteq> OutOfFuel \<Longrightarrow>
             multiplicative k r = multiplicative n r" and
      hml: "\<And>r node. multiplicativeLoop n node r \<noteq> OutOfFuel \<Longrightarrow>
             multiplicativeLoop k node r = multiplicativeLoop n node r" and
      ha: "\<And>r. additive n r \<noteq> OutOfFuel \<Longrightarrow> additive k r = additive n r" and
      hal: "\<And>r node. additiveLoop n node r \<noteq> OutOfFuel \<Longrightarrow>
             additiveLoop k node r = additiveLoop n node r"
      by blast+
    have 1: "primary (Suc n) r \<noteq> OutOfFuel \<longrightarrow> primary m r = primary (Suc n) r"
      unfolding m by (auto simp add: ha split: option.splits result.splits prod.splits)
    have 2: "multiplicative (Suc n) r \<noteq> OutOfFuel \<longrightarrow>
        multiplicative m r = multiplicative (Suc n) r"
      unfolding m by (auto simp add: hp hml split: result.splits)
    have 3: "multiplicativeLoop (Suc n) node r \<noteq> OutOfFuel \<longrightarrow>
        multiplicativeLoop m node r = multiplicativeLoop (Suc n) node r"
      unfolding m by (auto simp add: hm hml split: option.splits result.splits prod.splits)
    have 4: "additive (Suc n) r \<noteq> OutOfFuel \<longrightarrow> additive m r = additive (Suc n) r"
      unfolding m by (auto simp add: hm hal split: result.splits)
    have 5: "additiveLoop (Suc n) node r \<noteq> OutOfFuel \<longrightarrow>
        additiveLoop m node r = additiveLoop (Suc n) node r"
      unfolding m by (auto simp add: hm hal split: option.splits result.splits prod.splits)
    from 1 2 3 4 5 show
      "(primary (Suc n) r \<noteq> OutOfFuel \<longrightarrow> primary m r = primary (Suc n) r) \<and>
       (multiplicative (Suc n) r \<noteq> OutOfFuel \<longrightarrow>
          multiplicative m r = multiplicative (Suc n) r) \<and>
       (multiplicativeLoop (Suc n) node r \<noteq> OutOfFuel \<longrightarrow>
          multiplicativeLoop m node r = multiplicativeLoop (Suc n) node r) \<and>
       (additive (Suc n) r \<noteq> OutOfFuel \<longrightarrow> additive m r = additive (Suc n) r) \<and>
       (additiveLoop (Suc n) node r \<noteq> OutOfFuel \<longrightarrow>
          additiveLoop m node r = additiveLoop (Suc n) node r)"
      by blast
  qed
qed

lemma additive_fuel_mono:
  "additive n r \<noteq> OutOfFuel \<Longrightarrow> n \<le> m \<Longrightarrow> additive m r = additive n r"
  using fuel_mono_aux by blast

lemma expressionStatement_fuel_mono:
  "expressionStatement n r \<noteq> OutOfFuel \<Longrightarrow> n \<le> m \<Longrightarrow>
   expressionStatement m r = expressionStatement n r"
  using additive_fuel_mono [of n r m]
  by (cases "additive n r = OutOfFuel") (simp_all add: expressionStatement_def)

subsection \<open>A successful call moves the cursor forward over the same tokens\<close>

lemma loop_advances:
  fixes f :: "SimpleToken \<Rightarrow> ASTNode \<Rightarrow> SimpleTokenReader \<Rightarrow> ASTNode result"
  assumes a: "(if c then (case read r of (tok, r1) \<Rightarrow>
              (case multiplicative n r1 of OutOfFuel \<Rightarrow> OutOfFuel | Throw e \<Rightarrow> Throw e
               | Return child2 r2 \<Rightarrow>
                   (case tok of None \<Rightarrow> Throw TypeError
                    | Some op \<Rightarrow> f op child2 r2)))
            else Return node r) = Return x r'"
    and c: "c \<Longrightarrow> pos r < length (readerTokens r)"
    and hm: "\<And>r x r'. multiplicative n r = Return x r' \<Longrightarrow> advances r r'"
    and f: "\<And>op child2 r2 x r'. f op child2 r2 = Return x r' \<Longrightarrow> keepsOrAdvances r2 r'"
  shows "keepsOrAdvances r r'"
proof (cases c)
  case False
  with a show ?thesis by (simp add: keepsOrAdvances_def)
next
  case True
  note rd = read_advance [OF c [OF True]] advances_read [OF c [OF True]]
  from a True rd(1) obtain child2 r2 where
    m: "multiplicative n (snd (read r)) = Return child2 r2" and
    l: "f (readerTokens r ! pos r) child2 r2 = Return x r'"
    by (auto split: result.splits)
  from rd(2) hm [OF m] have "advances r r2" by (rule advances_trans)
  then have "advances r r'" using f [OF l] by (rule advances_keeps)
  then show ?thesis by (simp add: keepsOrAdvances_def)
qed

lemma parser_advances_aux:
  "\<forall>r node x r'.
     (primary n r = Return x r' \<longrightarrow> advances r r') \<and>
     (multiplicative n r = Return x r' \<longrightarrow> advances r r') \<and>
     (multiplicativeLoop n node r = Return x r' \<longrightarrow> keepsOrAdvances r r') \<and>
     (additive n r = Return x r' \<longrightarrow> advances r r') \<and>
     (additiveLoop n node r = Return x r' \<longrightarrow> keepsOrAdvances r r')"
proof (induction n)
  case 0
  show ?case by simp
next
  case (Suc n)
  then have
    hp: "\<And>r x r'. primary n r = Return x r' \<Longrightarrow> advances r r'" and
    hm: "\<And>r x r'. multiplicative n r = Return x r' \<Longrightarrow> advances r r'" and
    hml: "\<And>r node x r'. multiplicativeLoop n node r = Return x r' \<Longrightarrow>
            keepsOrAdvances r r'" and
    ha: "\<And>r x r'. additive n r = Return x r' \<Longrightarrow> advances r r'" and
    hal: "\<And>r node x r'. additiveLoop n node r = Return x r' \<Longrightarrow> keepsOrAdvances r r'"
    by blast+
  have 1: "advances r r'" if a: "primary (Suc n) r = Return x r'" for r x r'
  proof -
    from a obtain tok where pk: "peek r = Some tok"
      by (cases "peek r") auto
    then have lt: "pos r < length (readerTokens r)"
      by (simp add: peek_Some_iff)
    note rd = read_advance [OF lt] advances_read [OF lt]
    show ?thesis
    proof (cases "getType tok = TokenType_IntLiteral \<or> getType tok = TokenType_Identifier")
      case True
      with a pk rd show ?thesis by (auto split: if_splits)
    next
      case False
      with a pk obtain node r2 where
        add: "additive n (snd (read r)) = Return node r2" and
        rp: "tokenIs (peek r2) TokenType_RightParen" and
        res: "r' = snd (read r2)"
        by (auto split: if_splits result.splits)
      from rd(2) ha [OF add] have "advances r r2" by (rule advances_trans)
      moreover have "advances r2 (snd (read r2))"
        using rp by (intro advances_read tokenIs_peek)
      ultimately show ?thesis unfolding res by (rule advances_trans)
    qed
  qed
  have 2: "multiplicative (Suc n) r = Return x r' \<Longrightarrow> advances r r'" for r x r'
    by (auto split: result.splits dest!: hp hml intro: advances_keeps)
  have 3: "keepsOrAdvances r r'" if a: "multiplicativeLoop (Suc n) node r = Return x r'"
    for r node x r'
    by (rule loop_advances [OF a [unfolded multiplicativeLoop.simps]])
      (blast dest: tokenIs_peek, erule hm, erule hml)
  have 4: "additive (Suc n) r = Return x r' \<Longrightarrow> advances r r'" for r x r'
    by (auto split: result.splits dest!: hm hal intro: advances_keeps)
  have 5: "keepsOrAdvances r r'" if a: "additiveLoop (Suc n) node r = Return x r'"
    for r node x r'
    by (rule loop_advances [OF a [unfolded additiveLoop.simps]])
      (blast dest: tokenIs_peek, erule hm, erule hal)
  from 1 2 3 4 5 show ?case by blast
qed

lemma primary_advances: "primary n r = Return x r' \<Longrightarrow> advances r r'"
  using parser_advances_aux by blast

lemma multiplicative_advances: "multiplicative n r = Return x r' \<Longrightarrow> advances r r'"
  using parser_advances_aux by blast

lemma additive_advances: "additive n r = Return x r' \<Longrightarrow> advances r r'"
  using parser_advances_aux by blast

subsection \<open>Three units of fuel for each remaining token are enough\<close>

lemma loop_fuel:
  fixes f :: "SimpleToken \<Rightarrow> ASTNode \<Rightarrow> SimpleTokenReader \<Rightarrow> ASTNode result"
  assumes b: "3 * remaining r + 1 \<le> Suc n"
    and c: "c \<Longrightarrow> pos r < length (readerTokens r)"
    and hm: "\<And>r. 3 * remaining r + 2 \<le> n \<Longrightarrow> multiplicative n r \<noteq> OutOfFuel"
    and f: "\<And>op child2 r2. 3 * remaining r2 + 1 \<le> n \<Longrightarrow> f op child2 r2 \<noteq> OutOfFuel"
  shows "(if c then (case read r of (tok, r1) \<Rightarrow>
              (case multiplicative n r1 of OutOfFuel \<Rightarrow> OutOfFuel | Throw e \<Rightarrow> Throw e
               | Return child2 r2 \<Rightarrow>
                   (case tok of None \<Rightarrow> Throw TypeError
                    | Some op \<Rightarrow> f op child2 r2)))
            else Return node r) \<noteq> OutOfFuel"
proof (cases c)
  case False
  then show ?thesis by simp
next
  case True
  note lt = c [OF True]
  note rd = remaining_advances [OF advances_read [OF lt]]
  from rd b have m: "3 * remaining (snd (read r)) + 2 \<le> n" by simp
  show ?thesis
  proof (cases "multiplicative n (snd (read r))")
    case OutOfFuel
    with hm [OF m] show ?thesis by simp
  next
    case (Throw e)
    with True lt show ?thesis by (simp add: read_def)
  next
    case (Return child2 r2)
    from remaining_advances [OF multiplicative_advances [OF Return]] rd b
    have "3 * remaining r2 + 1 \<le> n" by simp
    from f [OF this] Return True lt show ?thesis
      by (simp add: read_def)
  qed
qed

lemma fuel_enough_aux:
  "\<forall>r node.
     (3 * remaining r + 1 \<le> n \<longrightarrow> primary n r \<noteq> OutOfFuel) \<and>
     (3 * remaining r + 2 \<le> n \<longrightarrow> multiplicative n r \<noteq> OutOfFuel) \<and>
     (3 * remaining r + 1 \<le> n \<longrightarrow> multiplicativeLoop n node r \<noteq> OutOfFuel) \<and>
     (3 * remaining r + 3 \<le> n \<longrightarrow> additive n r \<noteq> OutOfFuel) \<and>
     (3 * remaining r + 1 \<le> n \<longrightarrow> additiveLoop n node r \<noteq> OutOfFuel)"
proof (induction n)
  case 0
  show ?case by simp
next
  case (Suc n)
  then have
    hp: "\<And>r. 3 * remaining r + 1 \<le> n \<Longrightarrow> primary n r \<noteq> OutOfFuel" and
    hm: "\<And>r. 3 * remaining r + 2 \<le> n \<Longrightarrow> multiplicative n r \<noteq> OutOfFuel" and
    hml: "\<And>r node. 3 * remaining r + 1 \<le> n \<Longrightarrow> multiplicativeLoop n node r \<noteq> OutOfFuel" and
    ha: "\<And>r. 3 * remaining r + 3 \<le> n \<Longrightarrow> additive n r \<noteq> OutOfFuel" and
    hal: "\<And>r node. 3 * remaining r + 1 \<le> n \<Longrightarrow> additiveLoop n node r \<noteq> OutOfFuel"
    by blast+
  have 1: "primary (Suc n) r \<noteq> OutOfFuel" if b: "3 * remaining r + 1 \<le> Suc n" for r
  proof (cases "peek r")
    case None
    then show ?thesis by simp
  next
    case (Some tok)
    then have "pos r < length (readerTokens r)" by (simp add: peek_Some_iff)
    from remaining_advances [OF advances_read [OF this]] b
    have "3 * remaining (snd (read r)) + 3 \<le> n" by simp
    from ha [OF this] Some show ?thesis
      by (auto split: result.splits prod.splits option.splits)
  qed
  have 2: "multiplicative (Suc n) r \<noteq> OutOfFuel" if b: "3 * remaining r + 2 \<le> Suc n" for r
  proof (cases "primary n r")
    case OutOfFuel
    with hp [of r] b show ?thesis by simp
  next
    case (Throw e)
    then show ?thesis by simp
  next
    case (Return child1 r1)
    from remaining_advances [OF primary_advances [OF Return]] b
    have "3 * remaining r1 + 1 \<le> n" by simp
    from hml [OF this] Return show ?thesis by simp
  qed
  have 3: "multiplicativeLoop (Suc n) node r \<noteq> OutOfFuel"
    if b: "3 * remaining r + 1 \<le> Suc n" for r node
    unfolding multiplicativeLoop.simps
    by (rule loop_fuel [OF b]) (blast dest: tokenIs_peek, erule hm, erule hml)
  have 4: "additive (Suc n) r \<noteq> OutOfFuel" if b: "3 * remaining r + 3 \<le> Suc n" for r
  proof (cases "multiplicative n r")
    case OutOfFuel
    with hm [of r] b show ?thesis by simp
  next
    case (Throw e)
    then show ?thesis by simp
  next
    case (Return child1 r1)
    from remaining_advances [OF multiplicative_advances [OF Return]] b
    have "3 * remaining r1 + 1 \<le> n" by simp
    from hal [OF this] Return show ?thesis by simp
  qed
  have 5: "additiveLoop (Suc n) node r \<noteq> OutOfFuel"
    if b: "3 * remaining r + 1 \<le> Suc n" for r node
    unfolding additiveLoop.simps
    by (rule loop_fuel [OF b]) (blast dest: tokenIs_peek, erule hm, erule hal)
  from 1 2 3 4 5 show ?case by blast
qed

lemma additive_fuel_enough: "3 * remaining r + 3 \<le> n \<Longrightarrow> additive n r \<noteq> OutOfFuel"
  using fuel_enough_aux by blast

subsection \<open>The claims about the parser\<close>

text \<open>C5: with three units of fuel for each remaining token and three more,
  \<open>expressionStatement\<close> is not cut off; and whenever it returns \<open>null\<close> (an additive
  expression was parsed and no semicolon follows) the reader it leaves is the reader it
  was given: the same tokens and the cursor at the position that \<open>getPosition\<close> recorded
  before the attempt. \<open>assignmentStatement\<close> is then called on that reader.\<close>

theorem expressionStatement_restores:
  "(3 * remaining r + 3 \<le> n \<longrightarrow> expressionStatement n r \<noteq> OutOfFuel)
   \<and> (expressionStatement n r = Return None r' \<longrightarrow>
        r' = r \<and> getPosition r' = getPosition r)"
proof (intro conjI impI)
  assume "3 * remaining r + 3 \<le> n"
  from additive_fuel_enough [OF this] show "expressionStatement n r \<noteq> OutOfFuel"
    by (simp add: expressionStatement_def split: result.splits)
next
  assume a: "expressionStatement n r = Return None r'"
  then obtain node r1 where
    add: "additive n r = Return node r1" and
    res: "r' = setPosition r1 (getPosition r)"
    by (auto simp add: expressionStatement_def Let_def split: result.splits if_splits)
  from additive_advances [OF add] show "r' = r"
    unfolding res by (simp add: advances_def setPosition_def getPosition_def)
  then show "getPosition r' = getPosition r" by simp
qed

theorem expressionStatement_restores_witness:
  "3 * remaining (fst (tokenize newSimpleLexer ''a = 3;'')) + 3 \<le> 15
   \<and> expressionStatement 15 (fst (tokenize newSimpleLexer ''a = 3;'')) =
       Return None (setPosition ((fst (tokenize newSimpleLexer ''a = 3;''))\<lparr>pos := 1\<rparr>) 0)
   \<and> setPosition ((fst (tokenize newSimpleLexer ''a = 3;''))\<lparr>pos := 1\<rparr>) 0 =
       fst (tokenize newSimpleLexer ''a = 3;'')"
proof -
  let ?R = "fst (tokenize newSimpleLexer ''a = 3;'')"
  let ?R' = "setPosition (?R\<lparr>pos := 1\<rparr>) 0"
  have h: "expressionStatement 15 ?R = Return None ?R'"
    by (simp add: expressionStatement_def lexer_defs reader_defs eval_nat_numeral)
  have b: "3 * remaining ?R + 3 \<le> 15"
    by (simp add: remaining_def lexer_defs)
  have "expressionStatement 15 ?R = Return None ?R' \<longrightarrow>
      ?R' = ?R \<and> getPosition ?R' = getPosition ?R"
    by (rule conjunct2 [OF expressionStatement_restores])
  from mp [OF this h] have e: "?R' = ?R" by (rule conjunct1)
  show ?thesis by (rule conjI [OF b conjI [OF h e]])
qed

lemma primary_leaf:
  "isOperand t \<Longrightarrow> peek r = Some t \<Longrightarrow>
   primary (Suc n) r = Return (leafOf t) (snd (read r))"
  by (auto simp add: isOperand_def leafOf_def peek_def read_def split: if_splits)

lemma multiplicativeLoop_stop:
  "\<not> tokenIs (peek r) TokenType_Star \<Longrightarrow> \<not> tokenIs (peek r) TokenType_Slash \<Longrightarrow>
   multiplicativeLoop (Suc n) node r = Return node r"
  by simp

lemma multiplicative_leaf:
  assumes "isOperand t" "peek r = Some t"
    and "\<not> tokenIs (peek (snd (read r))) TokenType_Star"
    and "\<not> tokenIs (peek (snd (read r))) TokenType_Slash"
  shows "multiplicative (Suc (Suc n)) r = Return (leafOf t) (snd (read r))"
proof -
  have "multiplicative (Suc (Suc n)) r = multiplicativeLoop (Suc n) (leafOf t) (snd (read r))"
    by (simp only: multiplicative.simps primary_leaf [OF assms(1,2)] result.case)
  also have "\<dots> = Return (leafOf t) (snd (read r))"
    using assms(3,4) by (rule multiplicativeLoop_stop)
  finally show ?thesis .
qed

text \<open>
  An operand, an operator and then whatever the recursive call of \<open>multiplicative\<close>
  parses: the result of the recursive call becomes the right child as a whole.
\<close>

lemma multiplicative_operator:
  assumes t: "isOperand t" "peek r = Some t"
    and op: "isMulOp op" "peek (snd (read r)) = Some op"
    and rec: "multiplicative (Suc m) (snd (read (snd (read r)))) = Return child2 r2"
    and stop: "\<not> tokenIs (peek r2) TokenType_Star" "\<not> tokenIs (peek r2) TokenType_Slash"
  shows "multiplicative (Suc (Suc (Suc m))) r =
     Return (SimpleASTNode ASTNodeType_Multiplicative (getText op) [leafOf t, child2]) r2"
proof -
  define r1 where "r1 = snd (read r)"
  define r1' where "r1' = snd (read r1)"
  from op have is_op: "tokenIs (peek r1) TokenType_Star \<or> tokenIs (peek r1) TokenType_Slash"
    by (auto simp add: isMulOp_def tokenIs_def r1_def)
  from op(2) have rd: "read r1 = (Some op, r1')"
    by (simp add: peek_def read_def r1_def r1'_def split: if_splits)
  from rec have rec': "multiplicative (Suc m) r1' = Return child2 r2"
    by (simp only: r1_def r1'_def)
  have "multiplicative (Suc (Suc (Suc m))) r = multiplicativeLoop (Suc (Suc m)) (leafOf t) r1"
    by (simp only: multiplicative.simps primary_leaf [OF t] result.case r1_def)
  also have "\<dots> =
      multiplicativeLoop (Suc m)
        (SimpleASTNode ASTNodeType_Multiplicative (getText op) [leafOf t, child2]) r2"
    by (simp only: multiplicativeLoop.simps(2) [of "Suc m"] is_op if_True rd prod.case rec'
        result.case option.case)
  also have "\<dots> =
      Return (SimpleASTNode ASTNodeType_Multiplicative (getText op) [leafOf t, child2]) r2"
    using stop by (rule multiplicativeLoop_stop)
  finally show ?thesis .
qed

text \<open>C1: the claim is that \<open>a op1 b op2 c\<close> with \<open>op1\<close>, \<open>op2\<close> among \<open>*\<close> and \<open>/\<close> is
  parsed as \<open>(a op1 b) op2 c\<close>. The loop of \<open>multiplicative\<close> parses its right operand
  with \<open>multiplicative\<close> itself, which takes all the operators that follow: on five
  tokens \<open>a op1 b op2 c\<close> (operands that are literals or identifiers, no \<open>*\<close> or \<open>/\<close>
  next) and with six units of fuel or more, the node that is built has \<open>a\<close> as its left
  child and the node of \<open>b op2 c\<close> as its right child.\<close>

theorem multiplicative_nests_right:
  assumes "isOperand a" "isMulOp op1" "isOperand b" "isMulOp op2" "isOperand c"
    and "rest = [] \<or> \<not> isMulOp (hd rest)"
  shows "multiplicative (6 + n) \<lparr>readerTokens = a # op1 # b # op2 # c # rest, pos = 0\<rparr> =
     Return
       (SimpleASTNode ASTNodeType_Multiplicative (getText op1)
          [leafOf a,
           SimpleASTNode ASTNodeType_Multiplicative (getText op2) [leafOf b, leafOf c]])
       \<lparr>readerTokens = a # op1 # b # op2 # c # rest, pos = 5\<rparr>"
proof -
  let ?R = "\<lambda>k. \<lparr>readerTokens = a # op1 # b # op2 # c # rest, pos = k\<rparr>"
  have rd: "snd (read (?R 0)) = ?R 1" "snd (read (?R 1)) = ?R 2" "snd (read (?R 2)) = ?R 3"
    "snd (read (?R 3)) = ?R 4" "snd (read (?R 4)) = ?R 5"
    by (simp_all add: read_def)
  have pk: "peek (?R 0) = Some a" "peek (?R 1) = Some op1" "peek (?R 2) = Some b"
    "peek (?R 3) = Some op2" "peek (?R 4) = Some c"
    by (simp_all add: peek_def)
  from assms(6) have stop: "\<not> tokenIs (peek (?R 5)) TokenType_Star"
    "\<not> tokenIs (peek (?R 5)) TokenType_Slash"
    by (cases rest; simp add: peek_def tokenIs_def isMulOp_def)+
  have c: "multiplicative (Suc (Suc n)) (?R 4) = Return (leafOf c) (?R 5)"
    by (rule multiplicative_leaf [of c "?R 4" n, unfolded rd, OF assms(5) pk(5) stop])
  have bc: "multiplicative (Suc (Suc (Suc (Suc n)))) (?R 2) =
      Return (SimpleASTNode ASTNodeType_Multiplicative (getText op2) [leafOf b, leafOf c]) (?R 5)"
    by (rule multiplicative_operator [of b "?R 2" op2 "Suc n" "leafOf c" "?R 5",
          unfolded rd, OF assms(3) pk(3) assms(4) pk(4) c stop])
  have abc: "multiplicative (Suc (Suc (Suc (Suc (Suc (Suc n)))))) (?R 0) =
      Return
       (SimpleASTNode ASTNodeType_Multiplicative (getText op1)
          [leafOf a,
           SimpleASTNode ASTNodeType_Multiplicative (getText op2) [leafOf b, leafOf c]])
       (?R 5)"
    by (rule multiplicative_operator [of a "?R 0" op1 "Suc (Suc (Suc n))" _ "?R 5",
          unfolded rd, OF assms(1) pk(1) assms(2) pk(2) bc stop])
  have "6 + n = Suc (Suc (Suc (Suc (Suc (Suc n)))))" by simp
  with abc show ?thesis by (simp only:)
qed

theorem multiplicative_nests_right_witness:
  "multiplicative 6 (fst (tokenize newSimpleLexer ''8/2/2;'')) =
     Return
       (SimpleASTNode ASTNodeType_Multiplicative ''/''
          [SimpleASTNode ASTNodeType_IntLiteral ''8'' [],
           SimpleASTNode ASTNodeType_Multiplicative ''/''
             [SimpleASTNode ASTNodeType_IntLiteral ''2'' [],
              SimpleASTNode ASTNodeType_IntLiteral ''2'' []]])
       ((fst (tokenize newSimpleLexer ''8/2/2;''))\<lparr>pos := 5\<rparr>)
   \<and> evaluate Map.empty
       (SimpleASTNode ASTNodeType_Multiplicative ''/''
          [SimpleASTNode ASTNodeType_IntLiteral ''8'' [],
           SimpleASTNode ASTNodeType_Multiplicative ''/''
             [SimpleASTNode ASTNodeType_IntLiteral ''2'' [],
              SimpleASTNode ASTNodeType_IntLiteral ''2'' []]]) =
     Inr (Some (Finite 8), Map.empty)
   \<and> evaluate Map.empty
       (SimpleASTNode ASTNodeType_Multiplicative ''/''
          [SimpleASTNode ASTNodeType_Multiplicative ''/''
             [SimpleASTNode ASTNodeType_IntLiteral ''8'' [],
              SimpleASTNode ASTNodeType_IntLiteral ''2'' []],
           SimpleASTNode ASTNodeType_IntLiteral ''2'' []]) =
     Inr (Some (Finite 2), Map.empty)"
proof -
  let ?n8 = "\<lparr>getType = TokenType_IntLiteral, getText = ''8''\<rparr>"
  let ?n2 = "\<lparr>getType = TokenType_IntLiteral, getText = ''2''\<rparr>"
  let ?sl = "\<lparr>getType = TokenType_Slash, getText = ''/''\<rparr>"
  let ?sc = "\<lparr>getType = TokenType_SemiColon, getText = '';''\<rparr>"
  have tk: "fst (tokenize newSimpleLexer ''8/2/2;'') =
      \<lparr>readerTokens = [?n8, ?sl, ?n2, ?sl, ?n2, ?sc], pos = 0\<rparr>"
    by (simp add: lexer_defs)
  have "multiplicative (6 + 0) \<lparr>readerTokens = [?n8, ?sl, ?n2, ?sl, ?n2, ?sc], pos = 0\<rparr> =
     Return
       (SimpleASTNode ASTNodeType_Multiplicative (getText ?sl)
          [leafOf ?n8,
           SimpleASTNode ASTNodeType_Multiplicative (getText ?sl) [leafOf ?n2, leafOf ?n2]])
       \<lparr>readerTokens = [?n8, ?sl, ?n2, ?sl, ?n2, ?sc], pos = 5\<rparr>"
    by (rule multiplicative_nests_right) (simp_all add: isOperand_def isMulOp_def)
  then have p: "multiplicative 6 (fst (tokenize newSimpleLexer ''8/2/2;'')) =
     Return
       (SimpleASTNode ASTNodeType_Multiplicative ''/''
          [SimpleASTNode ASTNodeType_IntLiteral ''8'' [],
           SimpleASTNode ASTNodeType_Multiplicative ''/''
             [SimpleASTNode ASTNodeType_IntLiteral ''2'' [],
              SimpleASTNode ASTNodeType_IntLiteral ''2'' []]])
       ((fst (tokenize newSimpleLexer ''8/2/2;''))\<lparr>pos := 5\<rparr>)"
    by (simp add: tk leafOf_def)
  have e1: "evaluate Map.empty
       (SimpleASTNode ASTNodeType_Multiplicative ''/''
          [SimpleASTNode ASTNodeType_IntLiteral ''8'' [],
           SimpleASTNode ASTNodeType_Multiplicative ''/''
             [SimpleASTNode ASTNodeType_IntLiteral ''2'' [],
              SimpleASTNode ASTNodeType_IntLiteral ''2'' []]]) =
     Inr (Some (Finite 8), Map.empty)"
    by (simp add: number_defs floorQuotient_safe)
  have e2: "evaluate Map.empty
       (SimpleASTNode ASTNodeType_Multiplicative ''/''
          [SimpleASTNode ASTNodeType_Multiplicative ''/''
             [SimpleASTNode ASTNodeType_IntLiteral ''8'' [],
              SimpleASTNode ASTNodeType_IntLiteral ''2'' []],
           SimpleASTNode ASTNodeType_IntLiteral ''2'' []]) =
     Inr (Some (Finite 2), Map.empty)"
    by (simp add: number_defs floorQuotient_safe)
  show ?thesis by (rule conjI [OF p conjI [OF e1 e2]])
qed

text \<open>C6: with nine units of fuel or more, parsing \<open>2+3+4;\<close> returns a \<open>Programm\<close> node
  whose only child is an \<open>Additive\<close> node with the \<open>Additive\<close> node of the literals 2 and
  3 as left child and the literal 4 as right child, all six tokens read; evaluating it
  with no variables yields 9.\<close>

theorem parse_2_plus_3_plus_4:
  "parse (9 + n) ''2+3+4;'' =
     Return
       (SimpleASTNode ASTNodeType_Programm ''demo''
          [SimpleASTNode ASTNodeType_Additive ''+''
             [SimpleASTNode ASTNodeType_Additive ''+''
                [SimpleASTNode ASTNodeType_IntLiteral ''2'' [],
                 SimpleASTNode ASTNodeType_IntLiteral ''3'' []],
              SimpleASTNode ASTNodeType_IntLiteral ''4'' []]])
       ((fst (tokenize newSimpleLexer ''2+3+4;''))\<lparr>pos := 6\<rparr>)
   \<and> evaluate Map.empty
       (SimpleASTNode ASTNodeType_Programm ''demo''
          [SimpleASTNode ASTNodeType_Additive ''+''
             [SimpleASTNode ASTNodeType_Additive ''+''
                [SimpleASTNode ASTNodeType_IntLiteral ''2'' [],
                 SimpleASTNode ASTNodeType_IntLiteral ''3'' []],
              SimpleASTNode ASTNodeType_IntLiteral ''4'' []]]) =
     Inr (Some (Finite 9), Map.empty)"
proof -
  have tk: "fst (tokenize newSimpleLexer ''2+3+4;'') =
      \<lparr>readerTokens =
         [\<lparr>getType = TokenType_IntLiteral, getText = ''2''\<rparr>,
          \<lparr>getType = TokenType_Plus, getText = ''+''\<rparr>,
          \<lparr>getType = TokenType_IntLiteral, getText = ''3''\<rparr>,
          \<lparr>getType = TokenType_Plus, getText = ''+''\<rparr>,
          \<lparr>getType = TokenType_IntLiteral, getText = ''4''\<rparr>,
          \<lparr>getType = TokenType_SemiColon, getText = '';''\<rparr>],
       pos = 0\<rparr>"
    by (simp add: lexer_defs)
  have pa: "parse (9 + n) ''2+3+4;'' =
     Return
       (SimpleASTNode ASTNodeType_Programm ''demo''
          [SimpleASTNode ASTNodeType_Additive ''+''
             [SimpleASTNode ASTNodeType_Additive ''+''
                [SimpleASTNode ASTNodeType_IntLiteral ''2'' [],
                 SimpleASTNode ASTNodeType_IntLiteral ''3'' []],
              SimpleASTNode ASTNodeType_IntLiteral ''4'' []]])
       ((fst (tokenize newSimpleLexer ''2+3+4;''))\<lparr>pos := 6\<rparr>)"
    unfolding parse_def tk
    by (simp add: prog_def intDeclare_def expressionStatement_def
        assignmentStatement_def reader_defs eval_nat_numeral)
  have ev: "evaluate Map.empty
       (SimpleASTNode ASTNodeType_Programm ''demo''
          [SimpleASTNode ASTNodeType_Additive ''+''
             [SimpleASTNode ASTNodeType_Additive ''+''
                [SimpleASTNode ASTNodeType_IntLiteral ''2'' [],
                 SimpleASTNode ASTNodeType_IntLiteral ''3'' []],
              SimpleASTNode ASTNodeType_IntLiteral ''4'' []]]) =
     Inr (Some (Finite 9), Map.empty)"
    by (simp add: number_defs)
  show ?thesis by (rule conjI [OF pa ev])
qed

section \<open>Properties of the evaluator\<close>

text \<open>C2: the claim is that an identifier bound to the integer 0 evaluates to 0. The
  lookup is \<open>variables.get(varName) || null\<close>, which turns every falsy value into \<open>null\<close>:
  \<open>evaluate\<close> raises \<open>UnknownVariable\<close> exactly when the name is absent, and
  \<open>UnsetVariable\<close> when it is bound to \<open>null\<close> and also when it is bound to a zero or to
  \<open>NaN\<close>; only the other values are returned. The program \<open>int a = 0; a;\<close> parses and
  its evaluation ends with \<open>UnsetVariable a\<close>.\<close>

theorem evaluate_identifier:
  "evaluate vars (SimpleASTNode ASTNodeType_Identifier x cs) =
     (case vars x of
        None \<Rightarrow> Inl (UnknownVariable x)
      | Some None \<Rightarrow> Inl (UnsetVariable x)
      | Some (Some a) \<Rightarrow>
          if a = Finite 0 \<or> a = NegZero \<or> a = NaN then Inl (UnsetVariable x)
          else Inr (Some a, vars))
   \<and> evaluate (vars(x \<mapsto> Some (Finite 0))) (SimpleASTNode ASTNodeType_Identifier x cs) =
       Inl (UnsetVariable x)
   \<and> parse (9 + n) ''int a = 0; a;'' =
       Return
         (SimpleASTNode ASTNodeType_Programm ''demo''
            [SimpleASTNode ASTNodeType_IntDeclaration ''a''
               [SimpleASTNode ASTNodeType_IntLiteral ''0'' []],
             SimpleASTNode ASTNodeType_Identifier ''a'' []])
         ((fst (tokenize newSimpleLexer ''int a = 0; a;''))\<lparr>pos := 7\<rparr>)
   \<and> evaluate Map.empty
         (SimpleASTNode ASTNodeType_Programm ''demo''
            [SimpleASTNode ASTNodeType_IntDeclaration ''a''
               [SimpleASTNode ASTNodeType_IntLiteral ''0'' []],
             SimpleASTNode ASTNodeType_Identifier ''a'' []]) =
       Inl (UnsetVariable ''a'')"
proof -
  have g: "evaluate vars (SimpleASTNode ASTNodeType_Identifier x cs) =
     (case vars x of
        None \<Rightarrow> Inl (UnknownVariable x)
      | Some None \<Rightarrow> Inl (UnsetVariable x)
      | Some (Some a) \<Rightarrow>
          if a = Finite 0 \<or> a = NegZero \<or> a = NaN then Inl (UnsetVariable x)
          else Inr (Some a, vars))" for vars
    by (simp add: orNull_def split: option.splits)
  have z: "evaluate (vars(x \<mapsto> Some (Finite 0))) (SimpleASTNode ASTNodeType_Identifier x cs) =
       Inl (UnsetVariable x)"
    by (simp add: orNull_def)
  have tk: "fst (tokenize newSimpleLexer ''int a = 0; a;'') = \<lparr>readerTokens =
     [\<lparr>getType = TokenType_Int, getText = ''int''\<rparr>,
      \<lparr>getType = TokenType_Identifier, getText = ''a''\<rparr>,
      \<lparr>getType = TokenType_Assignment, getText = ''=''\<rparr>,
      \<lparr>getType = TokenType_IntLiteral, getText = ''0''\<rparr>,
      \<lparr>getType = TokenType_SemiColon, getText = '';''\<rparr>,
      \<lparr>getType = TokenType_Identifier, getText = ''a''\<rparr>,
      \<lparr>getType = TokenType_SemiColon, getText = '';''\<rparr>],
     pos = 0\<rparr>"
    by (simp add: lexer_defs)
  have pa: "parse (9 + n) ''int a = 0; a;'' =
       Return
         (SimpleASTNode ASTNodeType_Programm ''demo''
            [SimpleASTNode ASTNodeType_IntDeclaration ''a''
               [SimpleASTNode ASTNodeType_IntLiteral ''0'' []],
             SimpleASTNode ASTNodeType_Identifier ''a'' []])
         ((fst (tokenize newSimpleLexer ''int a = 0; a;''))\<lparr>pos := 7\<rparr>)"
    unfolding parse_def tk
    by (simp add: prog_def intDeclare_def expressionStatement_def
        assignmentStatement_def reader_defs eval_nat_numeral)
  have ev: "evaluate Map.empty
         (SimpleASTNode ASTNodeType_Programm ''demo''
            [SimpleASTNode ASTNodeType_IntDeclaration ''a''
               [SimpleASTNode ASTNodeType_IntLiteral ''0'' []],
             SimpleASTNode ASTNodeType_Identifier ''a'' []]) =
       Inl (UnsetVariable ''a'')"
    by (simp add: number_defs)
  show ?thesis by (rule conjI [OF g conjI [OF z conjI [OF pa ev]]])
qed

text \<open>C3: the claim is that dividing by a right child that evaluates to 0 raises a
  division-by-zero error. No error is raised: \<open>1/0\<close> evaluates to \<open>Infinity\<close>.\<close>

theorem division_by_zero_counterexample:
  "evaluate Map.empty (SimpleASTNode ASTNodeType_IntLiteral ''0'' []) =
     Inr (Some (Finite 0), Map.empty)
   \<and> evaluate Map.empty
       (SimpleASTNode ASTNodeType_Multiplicative ''/''
          [SimpleASTNode ASTNodeType_IntLiteral ''1'' [],
           SimpleASTNode ASTNodeType_IntLiteral ''0'' []]) =
     Inr (Some PosInfinity, Map.empty)"
  by (simp add: number_defs)

text \<open>The quotient by a zero is an infinity or \<open>NaN\<close>. The quotient of two integers below
  \<open>2^53\<close> in absolute value, the divisor not zero, is the floor of the exact quotient
  (with the negative zero for \<open>0\<close> divided by a negative integer): rounding the quotient to
  a double does not carry it to or across an integer there.\<close>

lemma floorDiv_zero: "isZero b \<Longrightarrow> floorDiv a b \<in> {PosInfinity, NegInfinity, NaN}"
  by (cases a) (auto simp add: floorDiv_def isZero_def isInfinite_def signedInfinity_def)

lemma floorDiv_Finite:
  assumes "j \<noteq> 0" "\<bar>i\<bar> < 2 ^ 53" "\<bar>j\<bar> < 2 ^ 53"
  shows "floorDiv (Finite i) (Finite j) =
     (if i = 0 \<and> j < 0 then NegZero else Finite (i div j))"
proof (cases "i = 0")
  case True
  with assms(1) show ?thesis
    by (simp add: floorDiv_def isZero_def isInfinite_def signedZero_def)
next
  case False
  with assms show ?thesis
    by (simp add: floorDiv_def isZero_def isInfinite_def floorQuotient_safe)
qed

text \<open>Above \<open>2^53\<close> the result need not be the floor of the exact quotient, which is
  \<open>6666666666666666\<close> here.\<close>

lemma evaluate_division_rounds:
  "evaluate Map.empty
     (SimpleASTNode ASTNodeType_Multiplicative ''/''
        [SimpleASTNode ASTNodeType_IntLiteral ''20000000000000000'' [],
         SimpleASTNode ASTNodeType_IntLiteral ''3'' []]) =
     Inr (Some (Finite 6666666666666667), Map.empty)"
proof -
  have l: "parseInt ''20000000000000000'' = Finite 20000000000000000"
    by (simp add: parseInt_def digitsValue_def isStrWhiteSpaceChar_def isDigit_def
        roundInt_2e16)
  have r: "parseInt ''3'' = Finite 3"
    by (simp add: number_defs)
  show ?thesis
    by (simp add: l r toNumber_def floorDiv_def isZero_def isInfinite_def
        floorQuotient_2e16_3)
qed

text \<open>C3, amended: a \<open>Multiplicative\<close> node whose text is not \<open>*\<close> (so \<open>/\<close>) and whose
  two children evaluate to numbers \<open>a\<close> and \<open>b\<close> evaluates without an error to
  \<open>Math.floor(a / b)\<close>. If \<open>b\<close> is a zero this is \<open>Infinity\<close>, \<open>-Infinity\<close> or \<open>NaN\<close>; if
  \<open>a\<close> and \<open>b\<close> are integers below \<open>2^53\<close> in absolute value and \<open>b\<close> is not 0 it is the floor
  of the quotient.\<close>

theorem evaluate_division:
  assumes "evaluate vars child3 = Inr (Some a, vars3)"
    and "evaluate vars3 child4 = Inr (Some b, vars4)"
    and "txt \<noteq> ''*''"
  shows "evaluate vars (SimpleASTNode ASTNodeType_Multiplicative txt (child3 # child4 # rest)) =
       Inr (Some (floorDiv a b), vars4)
     \<and> (isZero b \<longrightarrow> floorDiv a b \<in> {PosInfinity, NegInfinity, NaN})
     \<and> (a = Finite i \<and> b = Finite j \<and> j \<noteq> 0 \<and> \<bar>i\<bar> < 2 ^ 53 \<and> \<bar>j\<bar> < 2 ^ 53 \<longrightarrow>
          floorDiv a b = (if i = 0 \<and> j < 0 then NegZero else Finite (i div j)))"
proof (intro conjI impI)
  show "evaluate vars (SimpleASTNode ASTNodeType_Multiplicative txt (child3 # child4 # rest)) =
       Inr (Some (floorDiv a b), vars4)"
    using assms by (simp add: toNumber_def)
next
  assume "isZero b"
  then show "floorDiv a b \<in> {PosInfinity, NegInfinity, NaN}" by (rule floorDiv_zero)
next
  assume "a = Finite i \<and> b = Finite j \<and> j \<noteq> 0 \<and> \<bar>i\<bar> < 2 ^ 53 \<and> \<bar>j\<bar> < 2 ^ 53"
  then show "floorDiv a b = (if i = 0 \<and> j < 0 then NegZero else Finite (i div j))"
    using floorDiv_Finite [of j i] by blast
qed

theorem evaluate_division_witness:
  "evaluate Map.empty
     (SimpleASTNode ASTNodeType_Multiplicative ''/''
        [SimpleASTNode ASTNodeType_IntLiteral ''7'' [],
         SimpleASTNode ASTNodeType_IntLiteral ''2'' []]) =
     Inr (Some (Finite 3), Map.empty)
   \<and> evaluate Map.empty
     (SimpleASTNode ASTNodeType_Multiplicative ''/''
        [SimpleASTNode ASTNodeType_IntLiteral ''0'' [],
         SimpleASTNode ASTNodeType_IntLiteral ''0'' []]) =
     Inr (Some (floorDiv (Finite 0) (Finite 0)), Map.empty)
   \<and> floorDiv (Finite 0) (Finite 0) \<in> {PosInfinity, NegInfinity, NaN}"
proof -
  have l7: "evaluate Map.empty (SimpleASTNode ASTNodeType_IntLiteral ''7'' []) =
      Inr (Some (Finite 7), Map.empty)"
    by (simp add: number_defs)
  have l2: "evaluate Map.empty (SimpleASTNode ASTNodeType_IntLiteral ''2'' []) =
      Inr (Some (Finite 2), Map.empty)"
    by (simp add: number_defs)
  have l0: "evaluate Map.empty (SimpleASTNode ASTNodeType_IntLiteral ''0'' []) =
      Inr (Some (Finite 0), Map.empty)"
    by (simp add: number_defs)
  have ne: "''/'' \<noteq> ''*''" by simp
  note w1 = evaluate_division [OF l7 l2 ne, of "[]" 7 2]
  note w2 = evaluate_division [OF l0 l0 ne, of "[]" 0 0]
  have s: "\<bar>7::int\<bar> < 2 ^ 53" "\<bar>2::int\<bar> < 2 ^ 53" by simp_all
  from w1 s have q: "floorDiv (Finite 7) (Finite 2) = Finite 3" by simp
  from w1 have "evaluate Map.empty
     (SimpleASTNode ASTNodeType_Multiplicative ''/''
        [SimpleASTNode ASTNodeType_IntLiteral ''7'' [],
         SimpleASTNode ASTNodeType_IntLiteral ''2'' []]) =
     Inr (Some (floorDiv (Finite 7) (Finite 2)), Map.empty)"
    by (rule conjunct1)
  then have a: "evaluate Map.empty
     (SimpleASTNode ASTNodeType_Multiplicative ''/''
        [SimpleASTNode ASTNodeType_IntLiteral ''7'' [],
         SimpleASTNode ASTNodeType_IntLiteral ''2'' []]) =
     Inr (Some (Finite 3), Map.empty)"
    by (simp only: q)
  from w2 have b: "evaluate Map.empty
     (SimpleASTNode ASTNodeType_Multiplicative ''/''
        [SimpleASTNode ASTNodeType_IntLiteral ''0'' [],
         SimpleASTNode ASTNodeType_IntLiteral ''0'' []]) =
     Inr (Some (floorDiv (Finite 0) (Finite 0)), Map.empty)"
    by (rule conjunct1)
  from w2 have c: "floorDiv (Finite 0) (Finite 0) \<in> {PosInfinity, NegInfinity, NaN}"
    by (simp add: isZero_def)
  show ?thesis by (rule conjI [OF a conjI [OF b c]])
qed

end
